theory Spec2Isabelle
  imports Complex_Main "HOL-Library.Log_Nat"
begin

section \<open>Numbers: binary64 values as pandas and numpy compute with them\<close>

text \<open>
  Every numeric cell of a DataFrame is a float64. A value is a finite rational that is
  rounded to the binary64 grid after every operation, one of the two infinities, or NaN.
  Zero carries no sign here (\<open>-0.0\<close> is read as \<open>0.0\<close>).
\<close>

datatype fval = Fin rat | PInf | NInf | NaN

definition rint :: "rat \<Rightarrow> int" where
  \<comment> \<open>numpy.rint: round to the nearest integer, ties to the even one\<close>
  "rint x = (let f = \<lfloor>x\<rfloor>; d = x - of_int f in
     if d < 1 / 2 then f
     else if 1 / 2 < d then f + 1
     else if even f then f else f + 1)"

definition expo :: "rat \<Rightarrow> int" where
  \<comment> \<open>the binary exponent of a non-zero rational: \<open>2 ^ e \<le> |x| < 2 ^ (e + 1)\<close>\<close>
  "expo x = (let (p, q) = quotient_of \<bar>x\<bar>; e = bitlen p - bitlen q in
     if 2 powi e \<le> \<bar>x\<bar> then e else e - 1)"

definition ulp :: "rat \<Rightarrow> rat" where
  \<comment> \<open>the spacing of the binary64 numbers around \<open>x\<close>: 52 bits below the exponent, which
      stops at -1022 (subnormal numbers)\<close>
  "ulp x = 2 powi (max (expo x) (- 1022) - 52)"

definition grid :: "rat \<Rightarrow> rat" where
  \<comment> \<open>the multiple of \<open>ulp x\<close> nearest to \<open>x\<close>, ties to even\<close>
  "grid x = of_int (rint (x / ulp x)) * ulp x"

definition b64 :: "rat \<Rightarrow> fval" where
  \<comment> \<open>the binary64 result of an operation whose exact value is \<open>x\<close>: round to nearest,
      overflow to an infinity from \<open>2 ^ 1024\<close> on\<close>
  "b64 x = (if x = 0 then Fin 0
     else if 2 powi 1024 \<le> \<bar>grid x\<bar> then (if 0 < x then PInf else NInf)
     else Fin (grid x))"

fun fneg :: "fval \<Rightarrow> fval" where
  "fneg (Fin x) = Fin (- x)"
| "fneg PInf = NInf"
| "fneg NInf = PInf"
| "fneg NaN = NaN"

fun fabs :: "fval \<Rightarrow> fval" where
  "fabs (Fin x) = Fin \<bar>x\<bar>"
| "fabs PInf = PInf"
| "fabs NInf = PInf"
| "fabs NaN = NaN"

fun fadd :: "fval \<Rightarrow> fval \<Rightarrow> fval" where
  "fadd NaN _ = NaN"
| "fadd _ NaN = NaN"
| "fadd (Fin x) (Fin y) = b64 (x + y)"
| "fadd PInf NInf = NaN"
| "fadd NInf PInf = NaN"
| "fadd PInf _ = PInf"
| "fadd NInf _ = NInf"
| "fadd (Fin x) b = b"

definition fsub :: "fval \<Rightarrow> fval \<Rightarrow> fval" where
  "fsub a b = fadd a (fneg b)"

fun fmul :: "fval \<Rightarrow> fval \<Rightarrow> fval" where
  "fmul NaN _ = NaN"
| "fmul _ NaN = NaN"
| "fmul (Fin x) (Fin y) = b64 (x * y)"
| "fmul (Fin x) b = (if x = 0 then NaN else if 0 < x then b else fneg b)"
| "fmul a (Fin y) = (if y = 0 then NaN else if 0 < y then a else fneg a)"
| "fmul a b = (if a = b then PInf else NInf)"

fun fdiv :: "fval \<Rightarrow> fval \<Rightarrow> fval" where
  "fdiv NaN _ = NaN"
| "fdiv _ NaN = NaN"
| "fdiv (Fin x) (Fin y) =
     (if y = 0 then (if x = 0 then NaN else if 0 < x then PInf else NInf)
      else b64 (x / y))"
| "fdiv (Fin x) b = Fin 0"
| "fdiv a (Fin y) = (if 0 \<le> y then a else fneg a)"
| "fdiv a b = NaN"

fun frint :: "fval \<Rightarrow> fval" where
  "frint (Fin x) = Fin (of_int (rint x))"
| "frint a = a"

fun fge :: "fval \<Rightarrow> fval \<Rightarrow> bool" where
  \<comment> \<open>\<open>a >= b\<close>: False as soon as one side is NaN\<close>
  "fge NaN _ = False"
| "fge _ NaN = False"
| "fge (Fin x) (Fin y) = (y \<le> x)"
| "fge PInf _ = True"
| "fge _ NInf = True"
| "fge _ _ = False"

fun isnan :: "fval \<Rightarrow> bool" where
  "isnan NaN = True"
| "isnan _ = False"

definition fne0 :: "fval \<Rightarrow> bool" where
  \<comment> \<open>\<open>a != 0\<close>: True for NaN\<close>
  "fne0 a = (case a of Fin x \<Rightarrow> x \<noteq> 0 | _ \<Rightarrow> True)"

definition np_round1 :: "fval \<Rightarrow> fval" where
  \<comment> \<open>numpy's \<open>x.round(1)\<close>: \<open>rint(x * 10) / 10\<close>\<close>
  "np_round1 x = fdiv (frint (fmul x (Fin 10))) (Fin 10)"

section \<open>DataFrames\<close>

text \<open>
  A DataFrame indexed by \<open>Date\<close>: the column labels and the rows in order, each row its
  timestamp and one cell per column. The frames the loader builds are rectangular and have
  distinct column labels; \<open>wf_frame\<close> says so. Python's exceptions are values of \<open>error\<close>.
  The pandas operations are those of pandas 1.x and 2.x, which the module is written for
  (it calls \<open>fillna(method='ffill')\<close>): \<open>pct_change\<close> pads missing values first.
\<close>

type_synonym timestamp = int

type_synonym 'c row = "timestamp \<times> 'c list"

record 'c frame =
  columns :: "string list"
  rows :: "'c row list"

datatype error = IndexError | KeyError | ValueError | AttributeError | TypeError | DuplicateIndex

definition wf_frame :: "'c frame \<Rightarrow> bool" where
  "wf_frame df = (distinct (columns df) \<and>
     list_all (\<lambda>r. length (snd r) = length (columns df)) (rows df))"

definition empty :: "'c frame \<Rightarrow> bool" where
  \<comment> \<open>\<open>df.empty\<close>: an axis of length 0\<close>
  "empty df = (rows df = [] \<or> columns df = [])"

function str_replace :: "string \<Rightarrow> string \<Rightarrow> string" where
  \<comment> \<open>\<open>s.replace(pat, '')\<close>, every occurrence from the left\<close>
  "str_replace pat [] = []"
| "str_replace pat (c # cs) =
     (if pat \<noteq> [] \<and> take (length pat) (c # cs) = pat
      then str_replace pat (drop (length pat) (c # cs))
      else c # str_replace pat cs)"
  by pat_completeness auto
termination
  by (relation "measure (\<lambda>(pat, s). length s)") auto

fun ffill :: "('c \<Rightarrow> bool) \<Rightarrow> 'c list \<Rightarrow> 'c list list \<Rightarrow> 'c list list" where
  \<comment> \<open>\<open>fillna(method='pad')\<close> down every column: a missing cell takes the last value
      above it\<close>
  "ffill missing prev [] = []"
| "ffill missing prev (r # rs) =
     (let r' = map2 (\<lambda>p v. if missing v then p else v) prev r in r' # ffill missing r' rs)"

fun shifted :: "(fval \<Rightarrow> fval \<Rightarrow> fval) \<Rightarrow> fval list \<Rightarrow> fval list list \<Rightarrow> fval list list" where
  \<comment> \<open>\<open>f\<close> of every row and the row above it, column by column\<close>
  "shifted f prev [] = []"
| "shifted f prev (r # rs) = map2 f r prev # shifted f r rs"

definition pct_change :: "nat \<Rightarrow> fval list list \<Rightarrow> fval list list" where
  \<comment> \<open>\<open>df.pct_change()\<close>: pad, then \<open>data / data.shift(1) - 1\<close>; the first row is NaN\<close>
  "pct_change k vs =
     shifted (\<lambda>cur prev. fsub (fdiv cur prev) (Fin 1)) (replicate k NaN)
       (ffill isnan (replicate k NaN) vs)"

definition diff :: "nat \<Rightarrow> fval list list \<Rightarrow> fval list list" where
  \<comment> \<open>\<open>df.diff()\<close>: \<open>data - data.shift(1)\<close>; the first row is NaN\<close>
  "diff k vs = shifted fsub (replicate k NaN) vs"

definition fillna :: "fval \<Rightarrow> fval \<Rightarrow> fval" where
  "fillna v a = (if isnan a then v else a)"

section \<open>threshold_sampling\<close>

text \<open>
  The merge of the frame with its change frame on \<open>Date\<close> puts the change columns
  (\<open>NAME_y\<close>) after the value columns (\<open>NAME_x\<close>), row by row when the timestamps are
  distinct. With a repeated timestamp the merge multiplies rows and the boolean mask of
  \<open>.loc\<close> no longer lines up with them; such a frame is outside the model, which answers
  \<open>DuplicateIndex\<close>.
  The selection reads the merged frame's column 1 (\<open>df.iloc[:, 1]\<close>) and the result keeps
  column 0 alone.
\<close>

definition default_threshold :: fval where
  "default_threshold = b64 (1 / 100)"

definition threshold_sampling :: "fval frame \<Rightarrow> string \<Rightarrow> fval \<Rightarrow> error + fval frame" where
  "threshold_sampling df change threshold_value =
    (if \<not> distinct (map fst (rows df)) then Inl DuplicateIndex
     else
       let k = length (columns df);
           vals = map snd (rows df);
           chg = (if change = ''relative'' then pct_change k vals else diff k vals);
           \<comment> \<open>\<open>pd.merge(df.reset_index(), chg.reset_index(), on=['Date']).set_index('Date')\<close>\<close>
           merged = map2 (\<lambda>(t, v) c. (t, v @ c, c)) (rows df) chg;
           \<comment> \<open>\<open>.loc[(chg != 0).any(axis=1)]\<close>\<close>
           moved = filter (\<lambda>(t, cells, c). list_ex fne0 c) merged;
           \<comment> \<open>\<open>.fillna(threshold_value + 1)\<close>, in the value columns too\<close>
           filled = map (\<lambda>(t, cells, c). (t, map (fillna (fadd threshold_value (Fin 1))) cells)) moved
       in if k = 0 then Inl IndexError
          else
            \<comment> \<open>\<open>df[df.iloc[:, 1] >= threshold_value]\<close>, then every column after the first
                is dropped and \<open>_x\<close> removed from the label\<close>
            Inr \<lparr>columns = [str_replace ''_x'' (hd (columns df) @ ''_x'')],
                 rows = map (\<lambda>(t, cells). (t, [cells ! 0]))
                          (filter (\<lambda>(t, cells). fge (cells ! 1) threshold_value) filled)\<rparr>)"

section \<open>accumulated_sampling\<close>

definition iloc0 :: "fval row \<Rightarrow> fval" where
  \<comment> \<open>\<open>df.iloc[j, 0]\<close>\<close>
  "iloc0 r = hd (snd r)"

definition pct2 :: "fval \<Rightarrow> fval \<Rightarrow> fval" where
  \<comment> \<open>\<open>pd.Series([base, cur]).pct_change()[1]\<close>\<close>
  "pct2 base cur = fsub (fdiv (if isnan cur then base else cur) base) (Fin 1)"

definition condition :: "string \<Rightarrow> fval \<Rightarrow> fval \<Rightarrow> fval" where
  "condition change base cur =
     (if change = ''relative''
      then fmul (np_round1 (fabs (pct2 base cur))) (Fin 100)
      else np_round1 (fabs (fsub cur base)))"

fun acc_loop :: "string \<Rightarrow> fval \<Rightarrow> fval row list \<Rightarrow> fval row list \<Rightarrow> fval row list" where
  \<comment> \<open>the \<open>for j\<close> loop: \<open>dc\<close> is \<open>dataframe_change\<close>, the list the rows still to visit\<close>
  "acc_loop change threshold_value dc [] = dc"
| "acc_loop change threshold_value dc (r # rs) =
     (if fge (condition change (iloc0 (last dc)) (iloc0 r)) threshold_value
      then acc_loop change threshold_value (dc @ [r]) rs
      else acc_loop change threshold_value dc rs)"

definition join_row :: "fval row list \<Rightarrow> nat \<Rightarrow> fval row \<Rightarrow> fval row list" where
  \<comment> \<open>a left row with its partners of the same timestamp, in their order; NaN without one\<close>
  "join_row right k = (\<lambda>(t, vs).
     (case filter (\<lambda>(t', ws). t' = t) right of
        [] \<Rightarrow> [(t, vs @ replicate k NaN)]
      | ms \<Rightarrow> map (\<lambda>(t', ws). (t, vs @ ws)) ms))"

definition join :: "nat \<Rightarrow> fval row list \<Rightarrow> fval row list \<Rightarrow> fval row list" where
  \<comment> \<open>\<open>left.join(right)\<close>: a left join on the index\<close>
  "join k left right = concat (map (join_row right k) left)"

definition dropna :: "fval row list \<Rightarrow> fval row list" where
  "dropna rs = filter (\<lambda>(t, vs). \<not> list_ex isnan vs) rs"

definition overlaps :: "string list \<Rightarrow> bool" where
  \<comment> \<open>a label with the suffix \<open>_change\<close> is a label of the frame too: \<open>join\<close> raises\<close>
  "overlaps cols = list_ex (\<lambda>c. c \<in> set cols) (map (\<lambda>c. c @ ''_change'') cols)"

definition accumulated_sampling :: "fval frame \<Rightarrow> string \<Rightarrow> fval \<Rightarrow> error + fval frame" where
  "accumulated_sampling df change threshold_value =
    (if empty df then Inr df
     else
       let \<comment> \<open>the seed \<open>df.iloc[[0]]\<close>, then the loop over every row, row 0 included\<close>
           dataframe_change = acc_loop change threshold_value [hd (rows df)] (rows df)
       in if overlaps (columns df) then Inl ValueError
          else
            \<comment> \<open>\<open>df.join(dataframe_change.add_suffix('_change'))\<close>, the first column dropped,
                the suffix removed from the labels, \<open>dropna(axis=0)\<close>\<close>
            Inr \<lparr>columns = map (str_replace ''_change'')
                   (tl (columns df) @ map (\<lambda>c. c @ ''_change'') (columns df)),
                 rows = dropna (map (\<lambda>(t, vs). (t, tl vs))
                          (join (length (columns df)) (rows df) dataframe_change))\<rparr>)"

section \<open>Strings\<close>

fun contains :: "string \<Rightarrow> string \<Rightarrow> bool" where
  \<comment> \<open>\<open>pat in s\<close>; it is also \<open>re.search(pat, s)\<close> for a pattern without special characters\<close>
  "contains pat [] = (pat = [])"
| "contains pat (c # cs) = (take (length pat) (c # cs) = pat \<or> contains pat cs)"

function split :: "string \<Rightarrow> string \<Rightarrow> string list" where
  \<comment> \<open>\<open>s.split(sep)\<close> for a separator that is not empty\<close>
  "split sep [] = [[]]"
| "split sep (c # cs) =
     (if sep \<noteq> [] \<and> take (length sep) (c # cs) = sep
      then [] # split sep (drop (length sep) (c # cs))
      else (case split sep cs of [] \<Rightarrow> [[c]] | p # ps \<Rightarrow> (c # p) # ps))"
  by pat_completeness auto
termination
  by (relation "measure (\<lambda>(sep, s). length s)") auto

definition digit :: "nat \<Rightarrow> char" where
  "digit d = char_of (48 + d)"

function str_of_nat :: "nat \<Rightarrow> string" where
  \<comment> \<open>\<open>str(n)\<close> of a count\<close>
  "str_of_nat n = (if n < 10 then [digit n] else str_of_nat (n div 10) @ [digit (n mod 10)])"
  by pat_completeness auto
termination
  by (relation "measure id") auto

fun intersperse :: "string \<Rightarrow> string list \<Rightarrow> string" where
  \<comment> \<open>\<open>sep.join(xs)\<close>\<close>
  "intersperse sep [] = []"
| "intersperse sep [x] = x"
| "intersperse sep (x # y # ys) = x @ sep @ intersperse sep (y # ys)"

section \<open>The series of a batch\<close>

text \<open>
  A series is a DataFrame object with the attributes the loader and the pipeline set on it:
  \<open>name\<close>, \<open>comment\<close> and, once a stage has assigned it, \<open>grow\<close>. Its cells are floats or
  text; a text cell can be missing. What \<open>print\<close> writes is a list of lines; a line that
  ends in \<open>strftime('%Y-%m-%d %H:%M:%S')\<close> of a timestamp keeps the timestamp.
\<close>

datatype table = Numeric "fval frame" | Text "string option frame"

record dataframe =
  name :: "string option"
  comment :: "string option"
  grow :: "string option"
  table :: table

datatype line = Line string | Stamped string timestamp

definition columns_of :: "table \<Rightarrow> string list" where
  "columns_of tb = (case tb of Numeric f \<Rightarrow> columns f | Text f \<Rightarrow> columns f)"

definition fresh :: "table \<Rightarrow> dataframe" where
  \<comment> \<open>a DataFrame a pandas operation has just built: none of the attributes is set\<close>
  "fresh tb = \<lparr>name = None, comment = None, grow = None, table = tb\<rparr>"

section \<open>growth_time\<close>

definition value_counts :: "string list \<Rightarrow> (string \<times> nat) list" where
  \<comment> \<open>the distinct values with their counts, the most frequent first\<close>
  "value_counts xs =
     sort_key (\<lambda>(x, n). - int n) (map (\<lambda>x. (x, count_list xs x)) (rev (remdups (rev xs))))"

definition index_of :: "string \<Rightarrow> string list \<Rightarrow> nat option" where
  "index_of c cs = (if c \<in> set cs then Some (length (takeWhile (\<lambda>x. x \<noteq> c) cs)) else None)"

definition nth_opt :: "'a list \<Rightarrow> nat \<Rightarrow> 'a option" where
  "nth_opt xs i = (if i < length xs then Some (xs ! i) else None)"

definition max_width :: "'a list list \<Rightarrow> nat" where
  \<comment> \<open>the number of columns of \<open>str.split(..., expand=True)\<close>\<close>
  "max_width ps = fold max (map length ps) 0"

definition pop :: "nat \<Rightarrow> 'a list \<Rightarrow> 'a list" where
  \<comment> \<open>the columns that \<open>df.pop\<close> leaves\<close>
  "pop m xs = take m xs @ drop (Suc m) xs"

fun pair_lines :: "(string \<times> timestamp) list \<Rightarrow> line list" where
  \<comment> \<open>the \<open>for i in range(0, len(df.index), 2)\<close> loop over an even number of rows\<close>
  "pair_lines ((a, ta) # (b, tb) # rest) =
     Stamped (''Start of the Growth '' @ a @ '':'') ta
       # Stamped (''End of the Growth '' @ b @ '':'') tb # pair_lines rest"
| "pair_lines _ = []"

definition duplicate_error :: string where
  "duplicate_error = ''Error: You use the same name for different growth events! Please use unique names for each growth event.''"

definition unmatched_error :: string where
  "unmatched_error = ''The number of growth events is not equal to the number of start and end of the growth events!''"

definition report :: "string option frame \<Rightarrow> string list \<Rightarrow> error + dataframe \<times> line list" where
  \<comment> \<open>from \<open>if any(count != 2 ...)\<close> to \<open>return df\<close>, for the split frame and its objects\<close>
  "report f objects =
    (let counts = value_counts objects; n = length (rows f) in
     if list_ex (\<lambda>(x, c). c \<noteq> 2) counts
     then
       (let g = (if list_ex (\<lambda>(x, c). 1 < c) counts then duplicate_error else unmatched_error)
        in Inr ((fresh (Text f))\<lparr>grow := Some g\<rparr>, [Line g]))
     else
       (let g1 = (if n = 2 then Some ''Single Growth detected.'' else None);
            out1 = (if n = 2
                    then [Stamped ''Start of the Growth: '' (fst (hd (rows f))),
                          Stamped ''End of the Growth: '' (fst (last (rows f)))]
                    else []);
            firsts = map (\<lambda>(t, cs). (cs ! 0, t)) (rows f)
        in if n mod 2 = 0
           then
             (if list_ex (\<lambda>(c, t). c = None) firsts then Inl TypeError
              else
                let g = str_of_nat (snd (hd counts)) @ '' growths detected with the names ''
                          @ intersperse '','' (map fst counts) @ ''.''
                in Inr ((fresh (Text f))\<lparr>grow := Some g\<rparr>,
                        out1 @ pair_lines (map (\<lambda>(c, t). (the c, t)) firsts) @ [Line g]))
           else
             (case g1 of None \<Rightarrow> Inl AttributeError
              | Some g \<Rightarrow> Inr ((fresh (Text f))\<lparr>grow := Some g\<rparr>, out1 @ [Line g]))))"

definition split_message :: "string list \<Rightarrow> nat \<Rightarrow> string option row list \<Rightarrow> error + dataframe \<times> line list" where
  \<comment> \<open>the two \<open>str.split(..., expand=True)\<close> assignments; \<open>m\<close> is the place of \<open>Message\<close>\<close>
  "split_message cols m rs =
    (let parts = map (\<lambda>(t, cs). split '' moved from '' (the (cs ! m))) rs in
     if max_width parts \<noteq> 2 then Inl ValueError
     else
       let objects = map (\<lambda>p. p ! 0) parts;
           parts2 = map (\<lambda>p. map_option (split '' to '') (nth_opt p 1)) parts
       in if max_width (concat (map (\<lambda>q. case q of None \<Rightarrow> [] | Some ps \<Rightarrow> [ps]) parts2)) \<noteq> 2
          then Inl ValueError
          else
            let new_cells = map2 (\<lambda>ob q. [Some ob,
                                    (case q of None \<Rightarrow> None | Some ps \<Rightarrow> Some (ps ! 0)),
                                    (case q of None \<Rightarrow> None | Some ps \<Rightarrow> nth_opt ps 1)])
                              objects parts2
            in report \<lparr>columns = pop m cols @ [''object'', ''from'', ''to''],
                        rows = map2 (\<lambda>(t, cs) new. (t, pop m cs @ new)) rs new_cells\<rparr>
                 objects)"

definition growth_time :: "dataframe \<Rightarrow> error + dataframe \<times> line list" where
  "growth_time df =
    (let cols0 = columns_of (table df) in
     if length cols0 < 3 then Inl IndexError
     else
       let keep = filter (\<lambda>i. cols0 ! i \<noteq> cols0 ! 0 \<and> cols0 ! i \<noteq> cols0 ! 2) [0..<length cols0];
           cols = map (\<lambda>i. cols0 ! i) keep
       in case index_of ''Message'' cols of
            None \<Rightarrow> Inl KeyError
          | Some m \<Rightarrow>
             (case table df of
                Numeric f \<Rightarrow> Inl AttributeError
              | Text f \<Rightarrow>
                 let rs = map (\<lambda>(t, cs). (t, map (\<lambda>i. cs ! i) keep)) (rows f);
                     moved = (\<lambda>r. map_option (contains ''moved from'') (snd r ! m))
                 in if \<not> list_ex (\<lambda>r. moved r = Some True) rs
                    then
                      (case grow df of
                         None \<Rightarrow> Inl AttributeError
                       | Some g \<Rightarrow> Inr (df\<lparr>table := Text \<lparr>columns = cols, rows = rs\<rparr>\<rparr>, [Line g]))
                    else if list_ex (\<lambda>r. moved r = None) rs then Inl ValueError
                    else
                      let holder = filter (\<lambda>r. \<not> contains ''Mirror'' (the (snd r ! m)))
                                     (filter (\<lambda>r. moved r = Some True) rs)
                      in if holder = []
                         then Inr ((fresh (Text \<lparr>columns = cols, rows = []\<rparr>))
                                     \<lparr>grow := Some ''No growth detected.''\<rparr>,
                                   [Line ''No growth detected.''])
                         else split_message cols m holder))"

section \<open>resampling\<close>

text \<open>
  The time-based branch calls pandas' \<open>resample\<close>; it is the parameter \<open>lib\<close>, which gets the
  period, the aggregation the branch asks for and the table. The loop replaces the entry
  \<open>i\<close> of the list by what the stages return and restores its \<open>comment\<close> and \<open>name\<close>; an
  exception anywhere ends the call.
\<close>

datatype agg = Agg_last_rules | Agg_last | Agg_mean

definition and_then :: "error + 'a \<Rightarrow> ('a \<Rightarrow> error + 'b) \<Rightarrow> error + 'b" where
  "and_then m f = (case m of Inl e \<Rightarrow> Inl e | Inr x \<Rightarrow> f x)"

definition pressure :: "string \<Rightarrow> bool" where
  \<comment> \<open>\<open>filter(regex='IG|MIG|PG')\<close> keeps the column\<close>
  "pressure c = (contains ''IG'' c \<or> contains ''MIG'' c \<or> contains ''PG'' c)"

definition temperature :: "string \<Rightarrow> bool" where
  \<comment> \<open>\<open>filter(regex='PID|Pyro')\<close> keeps the column\<close>
  "temperature c = (contains ''PID'' c \<or> contains ''Pyro'' c)"

definition numeric :: "dataframe \<Rightarrow> error + fval frame" where
  \<comment> \<open>arithmetic on a text column raises\<close>
  "numeric df = (case table df of Numeric f \<Rightarrow> Inr f | Text f \<Rightarrow> Inl TypeError)"

definition no_message_error :: string where
  "no_message_error = ''Error: No Message log detected, can not determine the number of growth events and the start and end of the growth!''"

definition diff_stage :: "fval \<Rightarrow> fval \<Rightarrow> dataframe \<Rightarrow> error + dataframe" where
  "diff_stage percent_cut value_cut df =
    (if length (columns_of (table df)) < 3
     then
       and_then
         (if list_ex pressure (columns_of (table df))
          then and_then (numeric df) (\<lambda>f.
               and_then (threshold_sampling f ''relative'' default_threshold) (\<lambda>g.
               and_then (accumulated_sampling g ''relative'' percent_cut) (\<lambda>h.
               Inr (fresh (Numeric h)))))
          else Inr df)
         (\<lambda>d. if list_ex temperature (columns_of (table d))
              then and_then (numeric d) (\<lambda>f.
                   and_then (threshold_sampling f ''absolute'' default_threshold) (\<lambda>g.
                   and_then (accumulated_sampling g ''absolute'' value_cut) (\<lambda>h.
                   Inr (fresh (Numeric h)))))
              else Inr d)
     else Inr df)"

definition ffill_table :: "table \<Rightarrow> table" where
  \<comment> \<open>\<open>fillna(method='ffill')\<close>\<close>
  "ffill_table tb =
     (case tb of
        Numeric f \<Rightarrow> Numeric (f\<lparr>rows := zip (map fst (rows f))
          (ffill isnan (replicate (length (columns f)) NaN) (map snd (rows f)))\<rparr>)
      | Text f \<Rightarrow> Text (f\<lparr>rows := zip (map fst (rows f))
          (ffill (\<lambda>c. c = None) (replicate (length (columns f)) None) (map snd (rows f)))\<rparr>))"

definition time_stage ::
  "(string \<Rightarrow> agg \<Rightarrow> table \<Rightarrow> error + table) \<Rightarrow> string \<Rightarrow> string \<Rightarrow> dataframe \<Rightarrow> error + dataframe" where
  "time_stage lib resampling_period nm df =
    (let n = length (columns_of (table df)) in
     and_then
       (lib resampling_period
          (if n = 3 then Agg_last_rules else if n = 11 then Agg_last else Agg_mean) (table df))
       (\<lambda>tb. Inr (fresh (if nm = ''Shutters'' then ffill_table tb else tb))))"

definition step ::
  "(string \<Rightarrow> agg \<Rightarrow> table \<Rightarrow> error + table) \<Rightarrow> fval \<Rightarrow> fval \<Rightarrow> string \<Rightarrow> string \<Rightarrow> nat
     \<Rightarrow> dataframe list \<Rightarrow> line list \<Rightarrow> error + dataframe list \<times> line list" where
  \<comment> \<open>one turn of \<open>for i in range(len(dataframe_list))\<close>\<close>
  "step lib percent_cut value_cut resampling_period resample_method i dataframe_list out =
    (let df = dataframe_list ! i in
     case comment df of
       None \<Rightarrow> Inl AttributeError
     | Some c \<Rightarrow>
        (case name df of
           None \<Rightarrow> Inl AttributeError
         | Some nm \<Rightarrow>
            and_then
              (if resample_method = ''diff'' then diff_stage percent_cut value_cut df
               else time_stage lib resampling_period nm df)
              (\<lambda>d. and_then
                 (if list_ex (contains ''Message'') (columns_of (table d))
                  then and_then (growth_time d) (\<lambda>(g, ls). Inr (dataframe_list[i := g], out @ ls))
                  else
                    let l = dataframe_list[i := d]; final = length l - 1
                    in Inr (l[final := (l ! final)\<lparr>grow := Some no_message_error\<rparr>],
                            out @ [Line no_message_error]))
                 (\<lambda>(l, out'). Inr (l[i := (l ! i)\<lparr>comment := Some c, name := Some nm\<rparr>], out')))))"

fun resampling_loop ::
  "(string \<Rightarrow> agg \<Rightarrow> table \<Rightarrow> error + table) \<Rightarrow> fval \<Rightarrow> fval \<Rightarrow> string \<Rightarrow> string \<Rightarrow> nat \<Rightarrow> nat
     \<Rightarrow> dataframe list \<Rightarrow> line list \<Rightarrow> error + dataframe list \<times> line list" where
  \<comment> \<open>\<open>todo\<close> turns are left, the next one is \<open>i\<close>\<close>
  "resampling_loop lib percent_cut value_cut resampling_period resample_method 0 i l out = Inr (l, out)"
| "resampling_loop lib percent_cut value_cut resampling_period resample_method (Suc todo) i l out =
     (case step lib percent_cut value_cut resampling_period resample_method i l out of
        Inl e \<Rightarrow> Inl e
      | Inr (l', out') \<Rightarrow>
          resampling_loop lib percent_cut value_cut resampling_period resample_method todo (Suc i) l' out')"

definition resampling ::
  "(string \<Rightarrow> agg \<Rightarrow> table \<Rightarrow> error + table) \<Rightarrow> dataframe list \<Rightarrow> fval \<Rightarrow> fval \<Rightarrow> string \<Rightarrow> string
     \<Rightarrow> error + dataframe list \<times> line list" where
  "resampling lib dataframe_list percent_cut value_cut resampling_period resample_method =
     resampling_loop lib percent_cut value_cut resampling_period resample_method
       (length dataframe_list) 0 dataframe_list []"

section \<open>Predicates of the statements\<close>

definition is_b64 :: "fval \<Rightarrow> bool" where
  \<comment> \<open>a value a Python float can hold: rounding leaves it as it is\<close>
  "is_b64 a = (case a of Fin x \<Rightarrow> b64 x = Fin x | _ \<Rightarrow> True)"

fun nonneg :: "fval \<Rightarrow> bool" where
  "nonneg (Fin x) = (0 \<le> x)"
| "nonneg PInf = True"
| "nonneg _ = False"

definition usable :: "string \<Rightarrow> fval \<Rightarrow> bool" where
  \<comment> \<open>a finite cell; in relative mode, where a cell becomes a divisor, not zero either\<close>
  "usable change a =
     (case a of Fin x \<Rightarrow> (if change = ''relative'' then x \<noteq> 0 else True) | _ \<Rightarrow> False)"

definition passes :: "fval \<Rightarrow> timestamp \<times> fval list \<times> fval list \<Rightarrow> bool" where
  \<comment> \<open>the selection \<open>df.iloc[:, 1] >= threshold_value\<close> on a row of the merged frame,
      after \<open>fillna(threshold_value + 1)\<close>\<close>
  "passes thr = (\<lambda>(t, cells, c). fge (fillna (fadd thr (Fin 1)) (cells ! 1)) thr)"

section \<open>Facts about binary64 rounding\<close>

lemma bitlen_powi:
  assumes "0 < p"
  shows "(2::rat) powi (bitlen p - 1) \<le> of_int p" "(of_int p :: rat) < 2 powi bitlen p"
proof -
  from bitlen_bounds[OF assms] have a: "2 ^ nat (bitlen p - 1) \<le> p" and b: "p < 2 ^ nat (bitlen p)"
    by auto
  have pos: "0 < bitlen p" using assms by (auto simp: bitlen_alt_def)
  have "(of_int (2 ^ nat (bitlen p - 1)) :: rat) \<le> of_int p" using a by (simp only: of_int_le_iff)
  then show "(2::rat) powi (bitlen p - 1) \<le> of_int p"
    using pos by (simp add: power_int_def)
  have "(of_int p :: rat) < of_int (2 ^ nat (bitlen p))" using b by (simp only: of_int_less_iff)
  then show "(of_int p :: rat) < 2 powi bitlen p"
    using pos by (simp add: power_int_def)
qed

lemma expo_bounds:
  assumes "x \<noteq> 0"
  shows "2 powi expo x \<le> \<bar>x\<bar> \<and> \<bar>x\<bar> < 2 powi (expo x + 1)"
proof -
  obtain p q where pq: "quotient_of \<bar>x\<bar> = (p, q)" by (cases "quotient_of \<bar>x\<bar>")
  have q: "0 < q" using pq quotient_of_denom_pos by blast
  have xe: "\<bar>x\<bar> = of_int p / of_int q" using pq by (rule quotient_of_div)
  have p: "0 < p"
  proof -
    have "0 < \<bar>x\<bar>" using assms by simp
    then have "0 < (of_int p :: rat) / of_int q" using xe by simp
    then show ?thesis using q by (simp add: zero_less_divide_iff)
  qed
  define e where "e = bitlen p - bitlen q"
  have up: "\<bar>x\<bar> < 2 powi (e + 1)"
  proof -
    have "(of_int p :: rat) < 2 powi bitlen p" by (rule bitlen_powi[OF p])
    moreover have "(2::rat) powi (bitlen q - 1) \<le> of_int q" by (rule bitlen_powi[OF q])
    ultimately have "(of_int p :: rat) / of_int q < 2 powi bitlen p / 2 powi (bitlen q - 1)"
      using p q by (intro frac_less) auto
    also have "\<dots> = 2 powi (bitlen p - (bitlen q - 1))"
      by (metis power_int_diff zero_neq_numeral)
    also have "bitlen p - (bitlen q - 1) = e + 1"
      by (simp add: e_def)
    finally show ?thesis using xe by simp
  qed
  have lo: "2 powi (e - 1) \<le> \<bar>x\<bar>"
  proof -
    have "(2::rat) powi (bitlen p - 1) \<le> of_int p" by (rule bitlen_powi[OF p])
    moreover have "(of_int q :: rat) \<le> 2 powi bitlen q" using bitlen_powi(2)[OF q] by simp
    ultimately have "(2::rat) powi (bitlen p - 1) / 2 powi bitlen q \<le> of_int p / of_int q"
      using p q by (intro frac_le) auto
    moreover have "(2::rat) powi (bitlen p - 1) / 2 powi bitlen q = 2 powi (bitlen p - 1 - bitlen q)"
      by (metis power_int_diff zero_neq_numeral)
    moreover have "bitlen p - 1 - bitlen q = e - 1"
      by (simp add: e_def)
    ultimately show ?thesis using xe by simp
  qed
  have ex: "expo x = (if 2 powi e \<le> \<bar>x\<bar> then e else e - 1)"
    by (simp add: expo_def pq e_def Let_def)
  show ?thesis
  proof (cases "2 powi e \<le> \<bar>x\<bar>")
    case True
    then show ?thesis using up ex by simp
  next
    case False
    then show ?thesis using lo ex by simp
  qed
qed

lemma powi2_less_cancel:
  assumes "(2::rat) powi a < 2 powi b"
  shows "a < b"
proof (rule ccontr)
  assume "\<not> a < b"
  then have "b \<le> a" by simp
  then have "(2::rat) powi b \<le> 2 powi a" by (intro power_int_increasing) auto
  with assms show False by simp
qed

lemma expo_eqI:
  assumes "2 powi e \<le> \<bar>x\<bar>" "\<bar>x\<bar> < 2 powi (e + 1)"
  shows "expo x = e"
proof -
  have "(0::rat) < 2 powi e" by simp
  with assms(1) have "0 < \<bar>x\<bar>" by linarith
  then have "x \<noteq> 0" by simp
  from expo_bounds[OF this] have b: "2 powi expo x \<le> \<bar>x\<bar>" "\<bar>x\<bar> < 2 powi (expo x + 1)" by auto
  have "(2::rat) powi e < 2 powi (expo x + 1)" using assms(1) b(2) by simp
  then have 1: "e < expo x + 1" by (rule powi2_less_cancel)
  have "(2::rat) powi expo x < 2 powi (e + 1)" using assms(2) b(1) by simp
  then have 2: "expo x < e + 1" by (rule powi2_less_cancel)
  from 1 2 show ?thesis by simp
qed

lemma rint_ge_floor: "\<lfloor>y\<rfloor> \<le> rint y"
  by (simp add: rint_def Let_def)

lemma rint_le_ceiling: "rint y \<le> \<lceil>y\<rceil>"
proof (cases "y = of_int \<lfloor>y\<rfloor>")
  case True
  then have "rint y = \<lfloor>y\<rfloor>" by (simp add: rint_def Let_def)
  then show ?thesis by (simp add: floor_le_ceiling)
next
  case False
  then have "\<lceil>y\<rceil> = \<lfloor>y\<rfloor> + 1" by (metis ceiling_altdef)
  then show ?thesis by (simp add: rint_def Let_def)
qed

lemma rint_abs_le:
  assumes "\<bar>y\<bar> \<le> of_int n"
  shows "\<bar>rint y\<bar> \<le> n"
proof -
  have "- of_int n \<le> y" "y \<le> of_int n" using assms by auto
  then have "- n \<le> \<lfloor>y\<rfloor>" "\<lceil>y\<rceil> \<le> n" by (simp_all add: le_floor_iff ceiling_le_iff)
  then show ?thesis using rint_ge_floor[of y] rint_le_ceiling[of y] by linarith
qed

lemma b64_eval:
  assumes "2 powi e \<le> \<bar>x\<bar>" "\<bar>x\<bar> < 2 powi (e + 1)" "- 1022 \<le> e" "e \<le> 1022"
  shows "b64 x = Fin (of_int (rint (x / 2 powi (e - 52))) * 2 powi (e - 52))"
proof -
  define u :: rat where "u = 2 powi (e - 52)"
  have u: "0 < u" by (simp add: u_def)
  have ex: "expo x = e" using assms(1,2) by (rule expo_eqI)
  have "(0::rat) < 2 powi e" by simp
  with assms(1) have "0 < \<bar>x\<bar>" by linarith
  then have x0: "x \<noteq> 0" by simp
  have "\<bar>x / u\<bar> = \<bar>x\<bar> / u" using u by simp
  also have "\<dots> \<le> 2 powi (e + 1) / u" using assms(2) u by (simp add: divide_le_cancel)
  also have "\<dots> = 2 powi (e + 1 - (e - 52))" unfolding u_def
    by (metis power_int_diff zero_neq_numeral)
  also have "\<dots> = of_int (2 ^ 53)" by simp
  finally have "\<bar>rint (x / u)\<bar> \<le> 2 ^ 53" by (rule rint_abs_le)
  then have "\<bar>(of_int (rint (x / u)) :: rat)\<bar> \<le> of_int (2 ^ 53)"
    by (simp only: of_int_abs[symmetric] of_int_le_iff)
  then have "\<bar>of_int (rint (x / u)) * u\<bar> \<le> 2 ^ 53 * u"
    using u by (simp add: abs_mult)
  also have "2 ^ 53 * u = 2 powi 53 * 2 powi (e - 52)" by (simp add: u_def)
  also have "\<dots> = 2 powi (53 + (e - 52))" by (rule power_int_add[symmetric]) simp
  also have "\<dots> \<le> 2 powi 1023" using assms(4) by (intro power_int_increasing) auto
  also have "\<dots> < 2 powi 1024" by (intro power_int_strict_increasing) auto
  finally have "\<not> 2 powi 1024 \<le> \<bar>of_int (rint (x / u)) * u\<bar>" by simp
  then show ?thesis
    using x0 ex assms(3) by (simp add: b64_def grid_def ulp_def u_def max_def)
qed

lemma floor_rat_numeral: "\<lfloor>numeral a / numeral b :: rat\<rfloor> = numeral a div numeral b"
  by (metis floor_divide_of_int_eq of_int_numeral)

lemma rint_of_int: "rint (of_int n) = n"
  by (simp add: rint_def)

lemma rint_numeral: "rint (numeral n) = numeral n"
  using rint_of_int[of "numeral n"] by simp

lemma rint_0: "rint 0 = 0"
  by (simp add: rint_def)

lemma b64_0: "b64 0 = Fin 0"
  by (simp add: b64_def)

lemma powi2_le_cancel:
  assumes "(2::rat) powi a \<le> 2 powi b"
  shows "a \<le> b"
proof (rule ccontr)
  assume "\<not> a \<le> b"
  then have "b < a" by simp
  then have "(2::rat) powi b < 2 powi a" by (intro power_int_strict_increasing) auto
  with assms show False by simp
qed

lemma b64_of_int:
  assumes "\<bar>n\<bar> \<le> 2 ^ 53"
  shows "b64 (of_int n) = Fin (of_int n)"
proof (cases "n = 0")
  case True
  then show ?thesis by (simp add: b64_0)
next
  case False
  define x :: rat where "x = of_int n"
  define e where "e = expo x"
  have x0: "x \<noteq> 0" using False by (simp add: x_def)
  from expo_bounds[OF x0] have lo: "2 powi e \<le> \<bar>x\<bar>" and hi: "\<bar>x\<bar> < 2 powi (e + 1)"
    by (auto simp: e_def)
  have "1 \<le> \<bar>n\<bar>" using False by simp
  then have "(of_int 1 :: rat) \<le> of_int \<bar>n\<bar>" by (simp only: of_int_le_iff)
  then have x1: "1 \<le> \<bar>x\<bar>" by (simp add: x_def)
  have "(of_int \<bar>n\<bar> :: rat) \<le> of_int (2 ^ 53)" using assms by (simp only: of_int_le_iff)
  then have x53: "\<bar>x\<bar> \<le> 2 powi 53" by (simp add: x_def)
  have "(2::rat) powi 0 < 2 powi (e + 1)" using x1 hi by simp
  then have e0: "0 \<le> e" using powi2_less_cancel[of 0 "e + 1"] by simp
  have "(2::rat) powi e \<le> 2 powi 53" using lo x53 by simp
  then have e53: "e \<le> 53" by (rule powi2_le_cancel)
  have ev: "b64 x = Fin (of_int (rint (x / 2 powi (e - 52))) * 2 powi (e - 52))"
    using lo hi e0 e53 by (intro b64_eval) auto
  have "\<exists>m. x / 2 powi (e - 52) = of_int m"
  proof (cases "e \<le> 52")
    case True
    have "x / 2 powi (e - 52) = x * 2 powi (52 - e)"
      by (simp add: power_int_diff field_simps)
    also have "\<dots> = x * 2 ^ nat (52 - e)" using True by (simp add: power_int_def)
    also have "\<dots> = of_int (n * 2 ^ nat (52 - e))" by (simp add: x_def)
    finally show ?thesis by blast
  next
    case False
    then have e: "e = 53" using e53 by simp
    have "\<bar>x\<bar> = 2 ^ 53" using lo x53 e by simp
    then have "\<bar>n\<bar> = 2 ^ 53" using assms
      by (metis abs_of_nonneg of_int_abs of_int_eq_iff of_int_numeral of_int_power x_def zero_le_numeral zero_le_power)
    then have "n = 2 ^ 53 \<or> n = - (2 ^ 53)" by linarith
    then have "x / 2 powi (e - 52) = of_int (n div 2)"
      using e by (auto simp: x_def)
    then show ?thesis by blast
  qed
  then obtain m where m: "x / 2 powi (e - 52) = of_int m" by blast
  then have "of_int (rint (x / 2 powi (e - 52))) * 2 powi (e - 52) = x / 2 powi (e - 52) * 2 powi (e - 52)"
    by (simp add: rint_of_int)
  also have "\<dots> = x" by simp
  finally show ?thesis using ev by (simp add: x_def)
qed

lemma b64_numeral: "numeral k \<le> (2 ^ 53 :: int) \<Longrightarrow> b64 (numeral k) = Fin (numeral k)"
  using b64_of_int[of "numeral k"] by simp

lemma b64_neg_numeral: "numeral k \<le> (2 ^ 53 :: int) \<Longrightarrow> b64 (- numeral k) = Fin (- numeral k)"
  using b64_of_int[of "- numeral k"] by simp

lemma fdiv_0: "y \<noteq> 0 \<Longrightarrow> fdiv (Fin 0) (Fin y) = Fin 0"
  by (simp add: b64_0)

lemma fmul_0: "fmul (Fin 0) (Fin y) = Fin 0"
  by (simp add: b64_0)

lemmas rint_eval = rint_def Let_def floor_rat_numeral rint_numeral rint_0

lemma b64_1: "b64 1 = Fin 1"
  using b64_of_int[of 1] by simp

subsection \<open>Rounding keeps the order against a binary64 number, and the sign\<close>

lemma ulp_pos: "0 < ulp x"
  by (simp add: ulp_def)

lemma b64_grid:
  assumes "x \<noteq> 0"
  shows "b64 x = (if 2 powi 1024 \<le> \<bar>grid x\<bar> then (if 0 < x then PInf else NInf) else Fin (grid x))"
  using assms by (simp add: b64_def)

lemma rep_grid:
  assumes "b64 t = Fin t" "t \<noteq> 0"
  shows "grid t = t" "\<bar>t\<bar> < 2 powi 1024"
proof -
  have *: "(if 2 powi 1024 \<le> \<bar>grid t\<bar> then (if 0 < t then PInf else NInf) else Fin (grid t)) = Fin t"
    using assms b64_grid[of t] by simp
  then have n: "\<not> 2 powi 1024 \<le> \<bar>grid t\<bar>" by (auto split: if_splits)
  with * show "grid t = t" by simp
  with n show "\<bar>t\<bar> < 2 powi 1024" by simp
qed

lemma expo_mono:
  assumes "a \<noteq> 0" "\<bar>a\<bar> \<le> \<bar>b\<bar>"
  shows "expo a \<le> expo b"
proof -
  have b0: "b \<noteq> 0" using assms by auto
  have "2 powi expo a \<le> \<bar>a\<bar>" using expo_bounds[OF assms(1)] by simp
  also have "\<dots> \<le> \<bar>b\<bar>" by (rule assms(2))
  also have "\<dots> < 2 powi (expo b + 1)" using expo_bounds[OF b0] by simp
  finally have "expo a < expo b + 1" by (rule powi2_less_cancel)
  then show ?thesis by simp
qed

lemma grid_ge_multiple:
  assumes "of_int n * ulp y \<le> y"
  shows "of_int n * ulp y \<le> grid y"
proof -
  have "of_int n \<le> y / ulp y" using assms ulp_pos[of y] by (simp add: pos_le_divide_eq)
  then have "n \<le> \<lfloor>y / ulp y\<rfloor>" by (simp add: le_floor_iff)
  then have "n \<le> rint (y / ulp y)" using rint_ge_floor[of "y / ulp y"] by linarith
  then have "(of_int n :: rat) \<le> of_int (rint (y / ulp y))" by (simp only: of_int_le_iff)
  then show ?thesis using ulp_pos[of y] by (simp add: grid_def)
qed

lemma grid_sign:
  shows "0 \<le> y \<Longrightarrow> 0 \<le> grid y" and "y \<le> 0 \<Longrightarrow> grid y \<le> 0"
proof -
  assume "0 \<le> y"
  then have "of_int 0 * ulp y \<le> y" by simp
  from grid_ge_multiple[OF this] show "0 \<le> grid y" by simp
next
  assume "y \<le> 0"
  then have "y / ulp y \<le> 0" using ulp_pos[of y] by (simp add: divide_le_0_iff)
  then have "\<lceil>y / ulp y\<rceil> \<le> 0" by (simp add: ceiling_le_iff)
  then have "rint (y / ulp y) \<le> 0" using rint_le_ceiling[of "y / ulp y"] by linarith
  then have "(of_int (rint (y / ulp y)) :: rat) \<le> 0" by simp
  then show "grid y \<le> 0" using ulp_pos[of y] by (simp add: grid_def mult_le_0_iff)
qed

lemma ulp_multiple:
  assumes "t \<noteq> 0" "y \<noteq> 0" "\<bar>y\<bar> \<le> \<bar>t\<bar>"
  shows "\<exists>m::int. ulp t = of_int m * ulp y"
proof -
  define d where "d = max (expo t) (- 1022) - max (expo y) (- 1022)"
  have "expo y \<le> expo t" using assms(2,3) by (rule expo_mono)
  then have d: "0 \<le> d" by (simp add: d_def)
  have "ulp t = 2 powi (d + (max (expo y) (- 1022) - 52))" by (simp add: ulp_def d_def)
  also have "\<dots> = 2 powi d * ulp y" unfolding ulp_def by (rule power_int_add) simp
  also have "(2::rat) powi d = of_int (2 ^ nat d)" using d by (simp add: power_int_def)
  finally show ?thesis by blast
qed

lemma b64_ge_rep:
  assumes rep: "b64 t = Fin t" and le: "t \<le> y"
  shows "fge (b64 y) (Fin t)"
proof -
  consider "y = 0" | "0 < y" "t \<le> 0" | "0 < y" "0 < t" | "y < 0" by linarith
  then show ?thesis
  proof cases
    case 1
    then show ?thesis using le by (simp add: b64_0)
  next
    case 2
    have "0 \<le> grid y" using 2(1) by (intro grid_sign) simp
    then show ?thesis using 2 by (simp add: b64_grid)
  next
    case 3
    have t0: "t \<noteq> 0" and y0: "y \<noteq> 0" using 3 by auto
    have gt: "grid t = t" using rep t0 by (rule rep_grid)
    have em: "expo t \<le> expo y" using t0 le 3 by (intro expo_mono) auto
    have "t \<le> grid y"
    proof (cases "max (expo t) (- 1022) = max (expo y) (- 1022)")
      case True
      then have u: "ulp t = ulp y" by (simp add: ulp_def)
      have "of_int (rint (t / ulp t)) * ulp y = t" using gt u by (simp add: grid_def)
      then show ?thesis using grid_ge_multiple[of "rint (t / ulp t)" y] le by simp
    next
      case False
      then have lt: "expo t < expo y" and ey: "- 1022 < expo y" using em by auto
      then have u: "ulp y = 2 powi (expo y - 52)" by (simp add: ulp_def max_def)
      have "(2::rat) powi expo y = 2 powi (52 + (expo y - 52))" by simp
      also have "\<dots> = 2 powi 52 * 2 powi (expo y - 52)" by (rule power_int_add) simp
      finally have p: "(2::rat) powi expo y = of_int (2 ^ 52) * ulp y" by (simp add: u)
      have "2 powi expo y \<le> \<bar>y\<bar>" using expo_bounds[OF y0] by simp
      then have "of_int (2 ^ 52) * ulp y \<le> y" using 3 p by simp
      then have "2 powi expo y \<le> grid y" using grid_ge_multiple[of "2 ^ 52" y] p by simp
      moreover have "\<bar>t\<bar> < 2 powi (expo t + 1)" using expo_bounds[OF t0] by simp
      moreover have "(2::rat) powi (expo t + 1) \<le> 2 powi expo y"
        using lt by (intro power_int_increasing) auto
      ultimately show ?thesis using 3 by simp
    qed
    then show ?thesis using 3 by (simp add: b64_grid)
  next
    case 4
    then have t0: "t \<noteq> 0" and y0: "y \<noteq> 0" and tn: "t < 0" using le by auto
    have gt: "grid t = t" and bt: "\<bar>t\<bar> < 2 powi 1024" using rep t0 by (rule rep_grid)+
    have "\<bar>y\<bar> \<le> \<bar>t\<bar>" using 4 le by simp
    from ulp_multiple[OF t0 y0 this] obtain m :: int where m: "ulp t = of_int m * ulp y" by blast
    have "t = of_int (rint (t / ulp t) * m) * ulp y"
      using gt by (simp add: grid_def m)
    then have "t \<le> grid y" using grid_ge_multiple[of "rint (t / ulp t) * m" y] le by simp
    moreover have "grid y \<le> 0" using 4 by (intro grid_sign) simp
    ultimately have "\<bar>grid y\<bar> \<le> \<bar>t\<bar>" using tn by simp
    then have "\<not> 2 powi 1024 \<le> \<bar>grid y\<bar>" using bt by simp
    then show ?thesis using \<open>t \<le> grid y\<close> y0 by (simp add: b64_grid)
  qed
qed

lemma b64_not_nan: "\<not> isnan (b64 x)"
  by (simp add: b64_def)

lemma b64_nonneg:
  assumes "0 \<le> x"
  shows "nonneg (b64 x)"
proof (cases "x = 0")
  case True
  then show ?thesis by (simp add: b64_0)
next
  case False
  then have "0 < x" using assms by simp
  moreover have "0 \<le> grid x" using assms by (rule grid_sign)
  ultimately show ?thesis by (simp add: b64_grid)
qed

lemma nonneg_fge: "nonneg a \<Longrightarrow> fge a (Fin 0)"
  by (cases a) auto

lemma fabs_nonneg: "\<not> isnan a \<Longrightarrow> nonneg (fabs a)"
  by (cases a) auto

lemma fmul_nonneg: "nonneg a \<Longrightarrow> 0 < y \<Longrightarrow> nonneg (fmul a (Fin y))"
  by (cases a) (auto simp: b64_nonneg)

lemma frint_nonneg: "nonneg a \<Longrightarrow> nonneg (frint a)"
proof (cases a)
  case (Fin x)
  assume "nonneg a"
  then have "0 \<le> \<lfloor>x\<rfloor>" using Fin by simp
  then have "0 \<le> rint x" using rint_ge_floor[of x] by linarith
  then show ?thesis using Fin by simp
qed auto

lemma fdiv_nonneg: "nonneg a \<Longrightarrow> 0 < y \<Longrightarrow> nonneg (fdiv a (Fin y))"
  by (cases a) (auto simp: b64_nonneg)

lemma np_round1_nonneg: "nonneg a \<Longrightarrow> nonneg (np_round1 a)"
  unfolding np_round1_def by (intro fdiv_nonneg frint_nonneg fmul_nonneg) auto

lemma fsub_fin_not_nan: "\<not> isnan (fsub (Fin x) (Fin y))"
  by (simp add: fsub_def b64_not_nan)

lemma fsub_1_not_nan: "\<not> isnan a \<Longrightarrow> \<not> isnan (fsub a (Fin 1))"
  by (cases a) (auto simp: fsub_def b64_not_nan)

lemma fdiv_fin_not_nan: "y \<noteq> 0 \<Longrightarrow> \<not> isnan (fdiv (Fin x) (Fin y))"
  by (simp add: b64_not_nan)

lemma sentinel_passes:
  assumes "is_b64 t" "\<not> isnan t"
  shows "fge (fadd t (Fin 1)) t"
proof (cases t)
  case (Fin x)
  then have "b64 x = Fin x" using assms(1) by (simp add: is_b64_def)
  then have "fge (b64 (x + 1)) (Fin x)" by (rule b64_ge_rep) simp
  then show ?thesis using Fin by simp
qed (use assms in auto)

lemma fge_trans: "fge a b \<Longrightarrow> fge b c \<Longrightarrow> fge a c"
  by (cases a; cases b; cases c) auto

lemma fge_not_nan: "fge a b \<Longrightarrow> \<not> isnan a \<and> \<not> isnan b"
  by (cases a; cases b) auto

subsection \<open>Constants of the examples\<close>

lemma default_threshold_eq: "default_threshold = Fin (5764607523034235 / 576460752303423488)"
  unfolding default_threshold_def by (subst b64_eval[of "-7"]) (simp_all add: rint_eval)

lemma sentinel_default: "fadd default_threshold (Fin 1) = Fin (4548635623644201 / 4503599627370496)"
  unfolding default_threshold_eq by (simp, subst b64_eval[of 0], simp_all add: rint_eval)

lemma b64_fifth: "b64 (1 / 5) = Fin (3602879701896397 / 18014398509481984)"
  by (subst b64_eval[of "-3"]) (simp_all add: rint_eval)

lemma b64_10_05: "b64 (201 / 20) = Fin (2828823515942093 / 281474976710656)"
  by (subst b64_eval[of 3]) (simp_all add: rint_eval)

section \<open>The Threshold Sampler compares the signed change\<close>

text \<open>
  Claim C1 says that a row after the first is kept exactly when some column changed and the
  change of the first data column is at least the threshold in absolute value, so that a
  large drop passes as well. \<open>threshold_sampling\<close> compares the signed change
  (\<open>df.iloc[:, 1] >= threshold_value\<close>) where \<open>accumulated_sampling\<close> takes \<open>abs\<close>: on the
  series 10, 5 with threshold 1 in absolute mode the second row changes by -5, its absolute
  change 5 is above the threshold, and the row is dropped.
\<close>

theorem threshold_sampling_drops_decrease:
  "threshold_sampling \<lparr>columns = [''PID''], rows = [(0, [Fin 10]), (1, [Fin 5])]\<rparr>
       ''absolute'' (Fin 1)
     = Inr \<lparr>columns = [''PID''], rows = [(0, [Fin 10])]\<rparr>
   \<and> fsub (Fin 5) (Fin 10) = Fin (- 5)
   \<and> fge (fabs (Fin (- 5))) (Fin 1)"
  by (simp add: threshold_sampling_def diff_def fsub_def b64_numeral b64_neg_numeral
      fne0_def fillna_def)

section \<open>A higher threshold never keeps more rows\<close>

lemma length_filter_mono:
  assumes "\<And>x. x \<in> set xs \<Longrightarrow> P x \<Longrightarrow> Q x"
  shows "length (filter P xs) \<le> length (filter Q xs)"
  using assms by (induction xs) auto

lemma shifted_lengths:
  assumes "list_all (\<lambda>r. length r = k) rs" "length prev = k"
  shows "list_all (\<lambda>r. length r = k) (shifted f prev rs)"
  using assms by (induction rs arbitrary: prev) auto

lemma ffill_lengths:
  assumes "list_all (\<lambda>r. length r = k) rs" "length prev = k"
  shows "list_all (\<lambda>r. length r = k) (ffill missing prev rs)"
  using assms by (induction rs arbitrary: prev) (auto simp: Let_def)

lemma change_lengths:
  assumes "list_all (\<lambda>r. length r = k) vs"
  shows "list_all (\<lambda>r. length r = k) (if change = ''relative'' then pct_change k vs else diff k vs)"
  using assms by (simp add: pct_change_def diff_def shifted_lengths ffill_lengths)

lemma passes_mono:
  assumes "is_b64 t1" "fge t2 t1" "passes t2 m"
  shows "passes t1 m"
proof -
  obtain t cells c where m: "m = (t, cells, c)" by (cases m)
  have nn: "\<not> isnan t1" using assms(2) fge_not_nan by blast
  show ?thesis
  proof (cases "isnan (cells ! 1)")
    case True
    then show ?thesis using sentinel_passes[OF assms(1) nn] by (simp add: passes_def m fillna_def)
  next
    case False
    then have "fge (cells ! 1) t2" using assms(3) by (simp add: passes_def m fillna_def)
    then have "fge (cells ! 1) t1" using assms(2) by (rule fge_trans)
    then show ?thesis using False by (simp add: passes_def m fillna_def)
  qed
qed

lemma threshold_sampling_length:
  assumes "wf_frame df" "distinct (map fst (rows df))" "columns df \<noteq> []"
  shows "\<exists>out. threshold_sampling df change thr = Inr out
    \<and> length (rows out) = length (filter (passes thr)
         (filter (\<lambda>(t, cells, c). list_ex fne0 c)
           (map2 (\<lambda>(t, v) c. (t, v @ c, c)) (rows df)
             (if change = ''relative'' then pct_change (length (columns df)) (map snd (rows df))
              else diff (length (columns df)) (map snd (rows df))))))"
proof -
  define k where "k = length (columns df)"
  define chg where "chg = (if change = ''relative'' then pct_change k (map snd (rows df))
              else diff k (map snd (rows df)))"
  define moved where "moved = filter (\<lambda>(t, cells, c). list_ex fne0 c)
           (map2 (\<lambda>(t, v) c. (t, v @ c, c)) (rows df) chg)"
  have k: "0 < k" using assms(3) by (simp add: k_def)
  have vs: "list_all (\<lambda>r. length r = k) (map snd (rows df))"
    using assms(1) by (simp add: wf_frame_def k_def list_all_iff)
  have cl: "list_all (\<lambda>r. length r = k) chg"
    unfolding chg_def using vs by (rule change_lengths)
  have len: "1 < length cells" if "(t, cells, c) \<in> set moved" for t cells c
  proof -
    from that have "(t, cells, c) \<in> set (map2 (\<lambda>(t, v) c. (t, v @ c, c)) (rows df) chg)"
      by (simp add: moved_def)
    then obtain r c' where z: "(r, c') \<in> set (zip (rows df) chg)"
      and e: "(t, cells, c) = (case r of (t, v) \<Rightarrow> \<lambda>c. (t, v @ c, c)) c'"
      by auto
    obtain t' v where r: "r = (t', v)" by (cases r)
    have "(t', v) \<in> set (rows df)" using z r by (auto dest: set_zip_leftD)
    then have "length v = k" using assms(1) by (auto simp: wf_frame_def k_def list_all_iff)
    moreover have "c' \<in> set chg" using z by (auto dest: set_zip_rightD)
    then have "length c' = k" using cl by (auto simp: list_all_iff)
    ultimately show ?thesis using e r k by simp
  qed
  define G where "G = (\<lambda>(t :: timestamp, cells, c :: fval list). (t, map (fillna (fadd thr (Fin 1))) cells))"
  define P where "P = (\<lambda>(t :: timestamp, cells). fge (cells ! 1) thr)"
  have "filter (P \<circ> G) moved = filter (passes thr) moved"
  proof (rule filter_cong[OF refl])
    fix m assume m: "m \<in> set moved"
    obtain t cells c where mm: "m = (t, cells, c)" by (cases m)
    have "1 < length cells" using m len mm by blast
    then show "(P \<circ> G) m = passes thr m" by (simp add: P_def G_def passes_def mm)
  qed
  then have eq: "length (filter P (map G moved)) = length (filter (passes thr) moved)"
    by (simp add: filter_map)
  have ts: "threshold_sampling df change thr
      = Inr \<lparr>columns = [str_replace ''_x'' (hd (columns df) @ ''_x'')],
             rows = map (\<lambda>(t, cells). (t, [cells ! 0])) (filter P (map G moved))\<rparr>"
    unfolding threshold_sampling_def Let_def moved_def chg_def k_def G_def P_def
    using assms(2,3) by simp
  have "length (rows \<lparr>columns = [str_replace ''_x'' (hd (columns df) @ ''_x'')],
             rows = map (\<lambda>(t, cells). (t, [cells ! 0])) (filter P (map G moved))\<rparr>)
      = length (filter (passes thr) moved)"
    using eq by simp
  then show ?thesis
    unfolding ts moved_def chg_def k_def by blast
qed

text \<open>
  Claim C8: for a strictly monotonic input series and thresholds \<open>t1 \<le> t2\<close>,
  \<open>threshold_sampling\<close> with \<open>t2\<close> keeps at most as many rows as with \<open>t1\<close>. It holds for
  every frame of at least one column with distinct timestamps, strictly monotonic or not,
  in both change modes: both calls return, and the row counts are ordered. The thresholds
  are floats; \<open>fge t2 t1\<close> is \<open>t1 <= t2\<close> and excludes NaN.
\<close>

theorem threshold_sampling_monotone:
  assumes "wf_frame df" "distinct (map fst (rows df))" "columns df \<noteq> []"
    and "is_b64 t1" "fge t2 t1"
  shows "\<exists>o1 o2. threshold_sampling df change t1 = Inr o1
           \<and> threshold_sampling df change t2 = Inr o2
           \<and> length (rows o2) \<le> length (rows o1)"
proof -
  from threshold_sampling_length[OF assms(1-3), of change t1] obtain o1 where
    o1: "threshold_sampling df change t1 = Inr o1" and
    l1: "length (rows o1) = length (filter (passes t1)
         (filter (\<lambda>(t, cells, c). list_ex fne0 c)
           (map2 (\<lambda>(t, v) c. (t, v @ c, c)) (rows df)
             (if change = ''relative'' then pct_change (length (columns df)) (map snd (rows df))
              else diff (length (columns df)) (map snd (rows df))))))" by blast
  from threshold_sampling_length[OF assms(1-3), of change t2] obtain o2 where
    o2: "threshold_sampling df change t2 = Inr o2" and
    l2: "length (rows o2) = length (filter (passes t2)
         (filter (\<lambda>(t, cells, c). list_ex fne0 c)
           (map2 (\<lambda>(t, v) c. (t, v @ c, c)) (rows df)
             (if change = ''relative'' then pct_change (length (columns df)) (map snd (rows df))
              else diff (length (columns df)) (map snd (rows df))))))" by blast
  have "length (rows o2) \<le> length (rows o1)"
    unfolding l1 l2 by (rule length_filter_mono) (rule passes_mono[OF assms(4,5)])
  then show ?thesis using o1 o2 by blast
qed

theorem threshold_sampling_monotone_witness:
  "wf_frame \<lparr>columns = [''PID''], rows = [(0, [Fin 10]), (1, [Fin 20])]\<rparr>
   \<and> distinct (map fst (rows \<lparr>columns = [''PID''], rows = [(0, [Fin 10]), (1, [Fin 20 :: fval])]\<rparr>))
   \<and> columns \<lparr>columns = [''PID''], rows = [(0, [Fin 10]), (1, [Fin 20 :: fval])]\<rparr> \<noteq> []
   \<and> is_b64 (Fin 1) \<and> fge (Fin 20) (Fin 1)
   \<and> (\<exists>o1 o2.
        threshold_sampling \<lparr>columns = [''PID''], rows = [(0, [Fin 10]), (1, [Fin 20])]\<rparr>
          ''absolute'' (Fin 1) = Inr o1
      \<and> threshold_sampling \<lparr>columns = [''PID''], rows = [(0, [Fin 10]), (1, [Fin 20])]\<rparr>
          ''absolute'' (Fin 20) = Inr o2
      \<and> length (rows o2) \<le> length (rows o1))"
proof -
  have w: "wf_frame \<lparr>columns = [''PID''], rows = [(0, [Fin 10]), (1, [Fin 20 :: fval])]\<rparr>"
    by (simp add: wf_frame_def)
  have d: "distinct (map fst (rows \<lparr>columns = [''PID''], rows = [(0, [Fin 10]), (1, [Fin 20 :: fval])]\<rparr>))"
    by simp
  have c: "columns \<lparr>columns = [''PID''], rows = [(0, [Fin 10]), (1, [Fin 20 :: fval])]\<rparr> \<noteq> []"
    by simp
  have b: "is_b64 (Fin 1)" by (simp add: is_b64_def b64_1)
  have g: "fge (Fin 20) (Fin 1)" by simp
  from threshold_sampling_monotone[OF w d c b g, of "''absolute''"] w d c b g
  show ?thesis by blast
qed

section \<open>The Accumulated Sampler on the series 10.0, 10.05, 10.5, 11.0\<close>

lemma condition_10_10: "condition ''relative'' (Fin 10) (Fin 10) = Fin 0"
  by (simp add: condition_def pct2_def fsub_def np_round1_def b64_0 b64_1 rint_0)

lemma condition_10_1005:
  "condition ''relative'' (Fin 10) (Fin (2828823515942093 / 281474976710656)) = Fin 0"
proof -
  have a: "fdiv (Fin (2828823515942093 / 281474976710656)) (Fin 10)
      = Fin (4526117625507349 / 4503599627370496)"
    by (simp, subst b64_eval[of 0], simp_all add: rint_eval)
  have b: "fsub (Fin (4526117625507349 / 4503599627370496)) (Fin 1)
      = Fin (22517998136853 / 4503599627370496)"
    by (simp add: fsub_def, subst b64_eval[of "-8"], simp_all add: rint_eval)
  have c: "fmul (Fin (22517998136853 / 4503599627370496)) (Fin 10)
      = Fin (112589990684265 / 2251799813685248)"
    by (simp, subst b64_eval[of "-5"], simp_all add: rint_eval)
  have d: "rint (112589990684265 / 2251799813685248) = 0"
    by (simp add: rint_eval)
  show ?thesis
    by (simp add: condition_def pct2_def np_round1_def a b c d fdiv_0 fmul_0
        del: fdiv.simps fmul.simps)
qed

lemma condition_10_105: "condition ''relative'' (Fin 10) (Fin (21 / 2)) = Fin 10"
proof -
  have a: "fdiv (Fin (21 / 2)) (Fin 10) = Fin (4728779608739021 / 4503599627370496)"
    by (simp, subst b64_eval[of 0], simp_all add: rint_eval)
  have b: "fsub (Fin (4728779608739021 / 4503599627370496)) (Fin 1)
      = Fin (225179981368525 / 4503599627370496)"
    by (simp add: fsub_def, subst b64_eval[of "-5"], simp_all add: rint_eval)
  have c: "fmul (Fin (225179981368525 / 4503599627370496)) (Fin 10)
      = Fin (1125899906842625 / 2251799813685248)"
    by (simp, subst b64_eval[of "-1"], simp_all add: rint_eval)
  have d: "rint (1125899906842625 / 2251799813685248) = 1"
    by (simp add: rint_eval)
  have e: "fdiv (Fin 1) (Fin 10) = Fin (3602879701896397 / 36028797018963968)"
    by (simp, subst b64_eval[of "-4"], simp_all add: rint_eval)
  have f: "fmul (Fin (3602879701896397 / 36028797018963968)) (Fin 100) = Fin 10"
    by (simp, subst b64_eval[of 3], simp_all add: rint_eval)
  show ?thesis
    by (simp add: condition_def pct2_def np_round1_def a b c d e f del: fdiv.simps fmul.simps)
qed

lemma condition_105_11: "condition ''relative'' (Fin (21 / 2)) (Fin 11) = Fin 0"
proof -
  have a: "fdiv (Fin 11) (Fin (21 / 2)) = Fin (4718056752483377 / 4503599627370496)"
    by (simp, subst b64_eval[of 0], simp_all add: rint_eval)
  have b: "fsub (Fin (4718056752483377 / 4503599627370496)) (Fin 1)
      = Fin (214457125112881 / 4503599627370496)"
    by (simp add: fsub_def, subst b64_eval[of "-5"], simp_all add: rint_eval)
  have c: "fmul (Fin (214457125112881 / 4503599627370496)) (Fin 10)
      = Fin (1072285625564405 / 2251799813685248)"
    by (simp, subst b64_eval[of "-2"], simp_all add: rint_eval)
  have d: "rint (1072285625564405 / 2251799813685248) = 0"
    by (simp add: rint_eval)
  show ?thesis
    by (simp add: condition_def pct2_def np_round1_def a b c d fdiv_0 fmul_0
        del: fdiv.simps fmul.simps)
qed

text \<open>
  Claim C2 says that relative mode with threshold 2 keeps the rows at t0, t2 and t3 of the
  series 10.0, 10.05, 10.5, 11.0, the change being rounded to one decimal and then
  multiplied by 100. Rounded to one decimal before the multiplication, a relative change
  is a multiple of 10 per cent: 11.0 against the baseline 10.5 is 0.0476, which rounds to
  0.0, and t3 is dropped. The rows kept are t0 and t2; the timestamps are 0, 1, 2, 3 and
  10.05 is the binary64 number next to it.
\<close>

theorem accumulated_sampling_relative_example:
  "accumulated_sampling
       \<lparr>columns = [''MIG''],
        rows = [(0, [Fin 10]), (1, [b64 (201 / 20)]), (2, [Fin (21 / 2)]), (3, [Fin 11])]\<rparr>
       ''relative'' (Fin 2)
     = Inr \<lparr>columns = [''MIG''], rows = [(0, [Fin 10]), (2, [Fin (21 / 2)])]\<rparr>"
  by (simp add: accumulated_sampling_def overlaps_def empty_def b64_10_05 iloc0_def condition_10_10
      condition_10_1005 condition_10_105 condition_105_11 join_def join_row_def dropna_def)

section \<open>The seed row of the Accumulated Sampler\<close>

lemma acc_loop_keeps: "set dc \<subseteq> set (acc_loop change t dc rs)"
proof (induction rs arbitrary: dc)
  case Nil
  show ?case by simp
next
  case (Cons r rs)
  have "set dc \<subseteq> set (acc_loop change t dc rs)" by (rule Cons.IH)
  moreover have "set dc \<subseteq> set (dc @ [r])" by auto
  then have "set dc \<subseteq> set (acc_loop change t (dc @ [r]) rs)"
    using Cons.IH[of "dc @ [r]"] by (rule subset_trans)
  ultimately show ?case by simp
qed

lemma join_row_mem:
  assumes "(t, ws) \<in> set right"
  shows "(t, vs @ ws) \<in> set (join_row right k (t, vs))"
proof -
  have mem: "(t, ws) \<in> set (filter (\<lambda>(t', ws). t' = t) right)" using assms by simp
  then obtain m ms where ms: "filter (\<lambda>(t', ws). t' = t) right = m # ms"
    by (cases "filter (\<lambda>(t', ws). t' = t) right") auto
  have "(\<lambda>(t', ws). (t, vs @ ws)) (t, ws) \<in> (\<lambda>(t', ws). (t, vs @ ws)) ` set (m # ms)"
    using mem unfolding ms by (rule imageI)
  then show ?thesis by (simp add: join_row_def ms)
qed

lemma join_mem:
  assumes "(t, vs) \<in> set left" "(t, ws) \<in> set right"
  shows "(t, vs @ ws) \<in> set (join k left right)"
proof -
  have "join k left right = concat (map (join_row right k) left)"
    by (simp add: join_def join_row_def)
  moreover have "(t, vs @ ws) \<in> set (join_row right k (t, vs))"
    using assms(2) by (rule join_row_mem)
  ultimately show ?thesis using assms(1) by auto
qed

text \<open>
  Claim C3 says that for every non-empty input the output of \<open>accumulated_sampling\<close> holds
  row 0 of the input, timestamp and values unmodified, whatever the mode and the
  threshold. The last step is \<open>dropna\<close>, which takes a seed row with a missing value
  out again, and \<open>join\<close> raises when a label with the suffix \<open>_change\<close> is a label of
  the frame. As amended: for every non-empty frame whose row 0 has no NaN cell and whose
  labels do not overlap in that way, the call returns and the output holds a row with
  the timestamp of row 0 and its values, unmodified, in the output's columns (the labels
  after the first, then all of them); for a frame of one column that row is row 0 itself.
\<close>

theorem accumulated_sampling_seed:
  assumes "wf_frame df"
    and "\<not> empty df"
    and "\<not> overlaps (columns df)"
    and "\<not> list_ex isnan (snd (hd (rows df)))"
  shows "\<exists>out. accumulated_sampling df change threshold_value = Inr out
           \<and> (fst (hd (rows df)), tl (snd (hd (rows df))) @ snd (hd (rows df))) \<in> set (rows out)
           \<and> (length (columns df) = 1 \<longrightarrow> hd (rows df) \<in> set (rows out))"
proof -
  obtain t0 vs0 where r0: "hd (rows df) = (t0, vs0)" by (cases "hd (rows df)")
  define dc where "dc = acc_loop change threshold_value [hd (rows df)] (rows df)"
  have ne: "rows df \<noteq> []" using assms(2) by (simp add: empty_def)
  then have left: "(t0, vs0) \<in> set (rows df)" using r0 by (metis hd_in_set)
  have right: "(t0, vs0) \<in> set dc"
    using acc_loop_keeps[of "[hd (rows df)]" change threshold_value "rows df"] r0
    by (auto simp: dc_def)
  have "(t0, vs0 @ vs0) \<in> set (join (length (columns df)) (rows df) dc)"
    using left right by (rule join_mem)
  then have "(t0, tl (vs0 @ vs0)) \<in> set (map (\<lambda>(t, vs). (t, tl vs)) (join (length (columns df)) (rows df) dc))"
    by (simp add: image_iff) (rule bexI[of _ "(t0, vs0 @ vs0)"], simp_all)
  moreover have "tl (vs0 @ vs0) = tl vs0 @ vs0" by (cases vs0) auto
  moreover have "\<not> list_ex isnan (tl vs0 @ vs0)"
    using assms(4) r0 by (cases vs0) (auto simp: list_ex_iff)
  ultimately have "(t0, tl vs0 @ vs0) \<in> set (dropna (map (\<lambda>(t, vs). (t, tl vs)) (join (length (columns df)) (rows df) dc)))"
    by (simp add: dropna_def)
  then have mem: "(t0, tl vs0 @ vs0) \<in> set (rows (\<lparr>columns = map (str_replace ''_change'')
        (tl (columns df) @ map (\<lambda>c. c @ ''_change'') (columns df)),
      rows = dropna (map (\<lambda>(t, vs). (t, tl vs)) (join (length (columns df)) (rows df) dc))\<rparr>))"
    by simp
  have one: "tl vs0 @ vs0 = vs0" if "length (columns df) = 1"
  proof -
    have "length vs0 = 1" using assms(1) left that by (auto simp: wf_frame_def list_all_iff)
    then show ?thesis by (cases vs0) auto
  qed
  show ?thesis
    using assms(2,3) r0 mem one by (auto simp: accumulated_sampling_def Let_def dc_def)
qed

theorem accumulated_sampling_seed_witness:
  "wf_frame \<lparr>columns = [''PID''], rows = [(0, [Fin 10]), (1, [Fin 20])]\<rparr> \<and> \<not> empty \<lparr>columns = [''PID''], rows = [(0, [Fin 10]), (1, [Fin 20])]\<rparr> \<and> \<not> overlaps (columns \<lparr>columns = [''PID''], rows = [(0, [Fin 10]), (1, [Fin 20])]\<rparr>)
   \<and> \<not> list_ex isnan (snd (hd (rows \<lparr>columns = [''PID''], rows = [(0, [Fin 10]), (1, [Fin 20])]\<rparr>)))
   \<and> (\<exists>out. accumulated_sampling \<lparr>columns = [''PID''], rows = [(0, [Fin 10]), (1, [Fin 20])]\<rparr> ''absolute'' (b64 (1 / 5)) = Inr out
         \<and> (0, [Fin 10]) \<in> set (rows out))"
proof -
  have w: "wf_frame \<lparr>columns = [''PID''], rows = [(0, [Fin 10]), (1, [Fin 20])]\<rparr>" by (simp add: wf_frame_def)
  have e: "\<not> empty \<lparr>columns = [''PID''], rows = [(0, [Fin 10]), (1, [Fin 20])]\<rparr>" by (simp add: empty_def)
  have v: "\<not> overlaps (columns \<lparr>columns = [''PID''], rows = [(0, [Fin 10]), (1, [Fin 20])]\<rparr>)" by (simp add: overlaps_def)
  have n: "\<not> list_ex isnan (snd (hd (rows \<lparr>columns = [''PID''], rows = [(0, [Fin 10]), (1, [Fin 20])]\<rparr>)))" by simp
  from accumulated_sampling_seed[OF w e v n, of "''absolute''" "b64 (1 / 5)"] w e v n
  show ?thesis by auto
qed

text \<open>
  The claim as stated fails on the frame whose only row holds NaN: the frame is not empty
  and the output has no row.
\<close>

theorem accumulated_sampling_seed_counterexample:
  "\<not> empty \<lparr>columns = [''PID''], rows = [(0, [NaN])]\<rparr>
   \<and> accumulated_sampling \<lparr>columns = [''PID''], rows = [(0, [NaN])]\<rparr> ''absolute'' (Fin 1)
       = Inr \<lparr>columns = [''PID''], rows = []\<rparr>"
  by (simp add: accumulated_sampling_def overlaps_def empty_def iloc0_def condition_def
      np_round1_def fsub_def join_def join_row_def dropna_def)

section \<open>The Accumulated Sampler with threshold 0\<close>

lemma condition_nonneg:
  assumes "usable change base" "usable change cur"
  shows "fge (condition change base cur) (Fin 0)"
proof -
  obtain x where b: "base = Fin x" using assms(1) by (cases base) (auto simp: usable_def)
  obtain y where c: "cur = Fin y" using assms(2) by (cases cur) (auto simp: usable_def)
  show ?thesis
  proof (cases "change = ''relative''")
    case True
    then have "x \<noteq> 0" using assms(1) b by (simp add: usable_def)
    then have "\<not> isnan (pct2 base cur)"
      unfolding pct2_def b c by (simp only: isnan.simps if_False fsub_1_not_nan fdiv_fin_not_nan not_False_eq_True)
    then have "nonneg (fmul (np_round1 (fabs (pct2 base cur))) (Fin 100))"
      by (intro fmul_nonneg np_round1_nonneg fabs_nonneg) auto
    then show ?thesis using True by (simp add: condition_def nonneg_fge)
  next
    case False
    have "\<not> isnan (fsub cur base)" unfolding b c by (rule fsub_fin_not_nan)
    then have "nonneg (np_round1 (fabs (fsub cur base)))"
      by (intro np_round1_nonneg fabs_nonneg)
    then show ?thesis using False by (simp add: condition_def nonneg_fge)
  qed
qed

lemma acc_loop_zero:
  assumes "list_all (\<lambda>r. usable change (iloc0 r)) rs" "dc \<noteq> []" "usable change (iloc0 (last dc))"
  shows "acc_loop change (Fin 0) dc rs = dc @ rs"
  using assms
proof (induction rs arbitrary: dc)
  case Nil
  show ?case by simp
next
  case (Cons r rs)
  have "fge (condition change (iloc0 (last dc)) (iloc0 r)) (Fin 0)"
    using Cons.prems by (intro condition_nonneg) auto
  moreover have "acc_loop change (Fin 0) (dc @ [r]) rs = (dc @ [r]) @ rs"
    using Cons.prems by (intro Cons.IH) auto
  ultimately show ?case by simp
qed

text \<open>
  Claim C10 says that with threshold 0 and a non-empty input every row meets the retention
  condition, row 0 is appended as the seed and again in the first turn of the loop, and
  row 0 is twice in the output. A change that is NaN meets no condition: in relative mode
  a baseline of 0 against a value of 0 is 0/0. As amended: when the first cell of every
  row is finite (and, in relative mode, not 0), row 0 has no NaN cell and no label
  overlaps with a suffixed one, \<open>dataframe_change\<close> is row 0 followed by all the rows of
  the input, row 0 among them, and the output starts with two copies of row 0.
\<close>

theorem accumulated_sampling_zero_threshold:
  assumes "\<not> empty df"
    and "\<not> overlaps (columns df)"
    and "list_all (\<lambda>r. usable change (iloc0 r)) (rows df)"
    and "\<not> list_ex isnan (snd (hd (rows df)))"
  shows "acc_loop change (Fin 0) [hd (rows df)] (rows df) = hd (rows df) # rows df
    \<and> (\<exists>out more. accumulated_sampling df change (Fin 0) = Inr out
          \<and> rows out = (fst (hd (rows df)), tl (snd (hd (rows df))) @ snd (hd (rows df)))
                # (fst (hd (rows df)), tl (snd (hd (rows df))) @ snd (hd (rows df))) # more)"
proof -
  obtain t0 vs0 where r0: "hd (rows df) = (t0, vs0)" by (cases "hd (rows df)")
  have ne: "rows df \<noteq> []" using assms(1) by (simp add: empty_def)
  then obtain rest where rs: "rows df = (t0, vs0) # rest" using r0 by (cases "rows df") auto
  have "usable change (iloc0 (t0, vs0))" using assms(3) rs by simp
  then have loop: "acc_loop change (Fin 0) [(t0, vs0)] (rows df) = (t0, vs0) # rows df"
    using acc_loop_zero[OF assms(3), of "[(t0, vs0)]"] by simp
  define k where "k = length (columns df)"
  define dc where "dc = (t0, vs0) # (t0, vs0) # rest"
  obtain ms where f: "filter (\<lambda>(t', ws). t' = t0) dc = (t0, vs0) # (t0, vs0) # ms"
    by (simp add: dc_def)
  have "join_row dc k (t0, vs0) = (t0, vs0 @ vs0) # (t0, vs0 @ vs0) # map (\<lambda>(t', ws). (t0, vs0 @ ws)) ms"
    by (simp add: join_row_def f)
  then obtain js where j: "join k (rows df) dc = (t0, vs0 @ vs0) # (t0, vs0 @ vs0) # js"
    by (simp add: join_def rs)
  have tl: "tl (vs0 @ vs0) = tl vs0 @ vs0" by (cases vs0) auto
  have nn: "\<not> list_ex isnan (tl vs0 @ vs0)"
    using assms(4) r0 by (cases vs0) (auto simp: list_ex_iff)
  have "dropna (map (\<lambda>(t, vs). (t, tl vs)) (join k (rows df) dc))
      = (t0, tl vs0 @ vs0) # (t0, tl vs0 @ vs0) # dropna (map (\<lambda>(t, vs). (t, tl vs)) js)"
    using nn by (simp add: j tl dropna_def)
  then show ?thesis
    using assms(1,2) loop by (simp add: accumulated_sampling_def Let_def r0 rs dc_def k_def)
qed

theorem accumulated_sampling_zero_threshold_witness:
  "\<not> empty \<lparr>columns = [''PID''], rows = [(0, [Fin 10]), (1, [Fin 20])]\<rparr> \<and> \<not> overlaps (columns \<lparr>columns = [''PID''], rows = [(0, [Fin 10]), (1, [Fin 20])]\<rparr>)
   \<and> list_all (\<lambda>r. usable ''absolute'' (iloc0 r)) (rows \<lparr>columns = [''PID''], rows = [(0, [Fin 10]), (1, [Fin 20])]\<rparr>)
   \<and> \<not> list_ex isnan (snd (hd (rows \<lparr>columns = [''PID''], rows = [(0, [Fin 10]), (1, [Fin 20])]\<rparr>)))
   \<and> acc_loop ''absolute'' (Fin 0) [(0, [Fin 10])] (rows \<lparr>columns = [''PID''], rows = [(0, [Fin 10]), (1, [Fin 20])]\<rparr>) = (0, [Fin 10]) # rows \<lparr>columns = [''PID''], rows = [(0, [Fin 10]), (1, [Fin 20])]\<rparr>
   \<and> (\<exists>out more. accumulated_sampling \<lparr>columns = [''PID''], rows = [(0, [Fin 10]), (1, [Fin 20])]\<rparr> ''absolute'' (Fin 0) = Inr out
         \<and> rows out = (0, [Fin 10]) # (0, [Fin 10]) # more)"
proof -
  have e: "\<not> empty \<lparr>columns = [''PID''], rows = [(0, [Fin 10]), (1, [Fin 20])]\<rparr>" by (simp add: empty_def)
  have v: "\<not> overlaps (columns \<lparr>columns = [''PID''], rows = [(0, [Fin 10]), (1, [Fin 20])]\<rparr>)" by (simp add: overlaps_def)
  have u: "list_all (\<lambda>r. usable ''absolute'' (iloc0 r)) (rows \<lparr>columns = [''PID''], rows = [(0, [Fin 10]), (1, [Fin 20])]\<rparr>)"
    by (simp add: usable_def iloc0_def)
  have n: "\<not> list_ex isnan (snd (hd (rows \<lparr>columns = [''PID''], rows = [(0, [Fin 10]), (1, [Fin 20])]\<rparr>)))" by simp
  from accumulated_sampling_zero_threshold[OF e v u n] e v u n
  show ?thesis by auto
qed

text \<open>
  The claim as stated fails in relative mode on the single row 0.0: the condition of the
  first turn is NaN, row 0 is appended once, and the output holds it once.
\<close>

theorem accumulated_sampling_zero_threshold_counterexample:
  "\<not> empty \<lparr>columns = [''MIG''], rows = [(0, [Fin 0])]\<rparr>
   \<and> \<not> fge (condition ''relative'' (Fin 0) (Fin 0)) (Fin 0)
   \<and> accumulated_sampling \<lparr>columns = [''MIG''], rows = [(0, [Fin 0])]\<rparr> ''relative'' (Fin 0)
       = Inr \<lparr>columns = [''MIG''], rows = [(0, [Fin 0])]\<rparr>"
  by (simp add: accumulated_sampling_def overlaps_def empty_def iloc0_def condition_def pct2_def
      np_round1_def fsub_def join_def join_row_def dropna_def)

section \<open>growth_time on small event logs\<close>

text \<open>
  Claim C4 says that one transition row for object A and two for object B give the
  unmatched start/end counts status and not the duplicate-name one. The count 2 of B is
  above 1, so \<open>any(count > 1 ...)\<close> holds and the status is the duplicate-name error.
\<close>

theorem growth_time_one_and_two:
  "growth_time
     \<lparr>name = Some ''Messages'', comment = Some ''log'', grow = None,
      table = Text \<lparr>columns = [''CallerID'', ''Message'', ''Color''],
        rows = [(1, [Some ''EPIC'', Some ''A moved from GC to MC'', Some ''Black'']),
                (2, [Some ''EPIC'', Some ''B moved from GC to MC'', Some ''Black'']),
                (3, [Some ''EPIC'', Some ''B moved from MC to GC'', Some ''Black''])]\<rparr>\<rparr>
   = Inr (\<lparr>name = None, comment = None, grow = Some duplicate_error,
           table = Text \<lparr>columns = [''object'', ''from'', ''to''],
             rows = [(1, [Some ''A'', Some ''GC'', Some ''MC'']),
                     (2, [Some ''B'', Some ''GC'', Some ''MC'']),
                     (3, [Some ''B'', Some ''MC'', Some ''GC''])]\<rparr>\<rparr>,
          [Line duplicate_error])"
  by code_simp

text \<open>
  Claim C5 says that two transition rows for the one object A end with the status
  "Single Growth detected." and report the timestamps of row 0 and row 1 as start and end.
  The start and the end are printed as claimed (timestamps 1 and 2 here), but the test
  \<open>len(df.index) % 2 == 0\<close> that follows is an \<open>if\<close> of its own and holds for two rows too,
  so the status is overwritten.
\<close>

theorem growth_time_single_pair:
  "growth_time
     \<lparr>name = Some ''Messages'', comment = Some ''log'', grow = None,
      table = Text \<lparr>columns = [''CallerID'', ''Message'', ''Color''],
        rows = [(1, [Some ''EPIC'', Some ''A moved from GC to MC'', Some ''Black'']),
                (2, [Some ''EPIC'', Some ''A moved from MC to GC'', Some ''Black''])]\<rparr>\<rparr>
   = Inr (\<lparr>name = None, comment = None,
           grow = Some ''2 growths detected with the names A.'',
           table = Text \<lparr>columns = [''object'', ''from'', ''to''],
             rows = [(1, [Some ''A'', Some ''GC'', Some ''MC'']),
                     (2, [Some ''A'', Some ''MC'', Some ''GC''])]\<rparr>\<rparr>,
          [Stamped ''Start of the Growth: '' 1,
           Stamped ''End of the Growth: '' 2,
           Stamped ''Start of the Growth A:'' 1,
           Stamped ''End of the Growth A:'' 2,
           Line ''2 growths detected with the names A.''])"
  by code_simp

text \<open>
  Claim C6 says that an event log whose filtered result is empty ends normally with the
  status "No growth detected.", whether no message contains "moved from" or every such
  row names the Mirror. The second case does; in the first the status is never assigned
  and \<open>print(df.grow)\<close> raises.
\<close>

theorem growth_time_no_moved_from:
  "growth_time
     \<lparr>name = Some ''Messages'', comment = Some ''log'', grow = None,
      table = Text \<lparr>columns = [''CallerID'', ''Message'', ''Color''],
        rows = [(1, [Some ''EPIC'', Some ''Shutter opened'', Some ''Black''])]\<rparr>\<rparr>
     = Inl AttributeError
   \<and> growth_time
     \<lparr>name = Some ''Messages'', comment = Some ''log'', grow = None,
      table = Text \<lparr>columns = [''CallerID'', ''Message'', ''Color''],
        rows = [(1, [Some ''EPIC'', Some ''Mirror moved from In to Out'', Some ''Black''])]\<rparr>\<rparr>
     = Inr (\<lparr>name = None, comment = None, grow = Some ''No growth detected.'',
             table = Text \<lparr>columns = [''Message''], rows = []\<rparr>\<rparr>,
            [Line ''No growth detected.''])"
  by code_simp

section \<open>resampling on two series without a Message column\<close>

lemma threshold_sampling_mig:
  "threshold_sampling \<lparr>columns = [''MIG''], rows = [(0, [Fin 1]), (1, [Fin 2])]\<rparr>
       ''relative'' default_threshold
     = Inr \<lparr>columns = [''MIG''], rows = [(0, [Fin 1]), (1, [Fin 2])]\<rparr>"
  by (simp add: threshold_sampling_def pct_change_def fsub_def b64_numeral b64_1 fne0_def
      fillna_def sentinel_default)
    (simp add: default_threshold_eq)

lemma accumulated_sampling_mig:
  "accumulated_sampling \<lparr>columns = [''MIG''], rows = [(0, [Fin 1]), (1, [Fin 2])]\<rparr>
       ''relative'' (Fin (1 / 2))
     = Inr \<lparr>columns = [''MIG''], rows = [(0, [Fin 1]), (1, [Fin 2])]\<rparr>"
  by (simp add: accumulated_sampling_def overlaps_def empty_def iloc0_def condition_def pct2_def
      np_round1_def fsub_def b64_numeral b64_1 b64_0 rint_numeral rint_0 join_def join_row_def dropna_def)

lemma threshold_sampling_pid:
  "threshold_sampling \<lparr>columns = [''PID''], rows = [(0, [Fin 10]), (1, [Fin 20])]\<rparr>
       ''absolute'' default_threshold
     = Inr \<lparr>columns = [''PID''], rows = [(0, [Fin 10]), (1, [Fin 20])]\<rparr>"
  by (simp add: threshold_sampling_def diff_def fsub_def b64_numeral b64_1 fne0_def
      fillna_def sentinel_default)
    (simp add: default_threshold_eq)

lemma accumulated_sampling_pid:
  "accumulated_sampling \<lparr>columns = [''PID''], rows = [(0, [Fin 10]), (1, [Fin 20])]\<rparr>
       ''absolute'' (b64 (1 / 5))
     = Inr \<lparr>columns = [''PID''], rows = [(0, [Fin 10]), (1, [Fin 20])]\<rparr>"
  by (simp add: accumulated_sampling_def overlaps_def empty_def iloc0_def condition_def pct2_def
      np_round1_def fsub_def b64_numeral b64_1 b64_0 rint_numeral rint_0 join_def join_row_def dropna_def
      b64_fifth)

lemma two_series:
  "resampling lib
     [\<lparr>name = Some ''MIG'', comment = Some ''pressure'', grow = None,
        table = Numeric \<lparr>columns = [''MIG''], rows = [(0, [Fin 1]), (1, [Fin 2])]\<rparr>\<rparr>,
      \<lparr>name = Some ''PID'', comment = Some ''temperature'', grow = None,
        table = Numeric \<lparr>columns = [''PID''], rows = [(0, [Fin 10]), (1, [Fin 20])]\<rparr>\<rparr>]
     (Fin (1 / 2)) (b64 (1 / 5)) ''30S'' ''diff''
   = Inr ([\<lparr>name = Some ''MIG'', comment = Some ''pressure'', grow = None,
             table = Numeric \<lparr>columns = [''MIG''], rows = [(0, [Fin 1]), (1, [Fin 2])]\<rparr>\<rparr>,
           \<lparr>name = Some ''PID'', comment = Some ''temperature'',
             grow = Some no_message_error,
             table = Numeric \<lparr>columns = [''PID''], rows = [(0, [Fin 10]), (1, [Fin 20])]\<rparr>\<rparr>],
          [Line no_message_error, Line no_message_error])"
  by (simp add: resampling_def step_def diff_stage_def and_then_def numeric_def columns_of_def
      pressure_def temperature_def threshold_sampling_mig accumulated_sampling_mig
      threshold_sampling_pid accumulated_sampling_pid fresh_def eval_nat_numeral)

text \<open>
  Claim C7 says that the diagnostic of a series without a Message column is attached to
  that series, and that the other series are still processed. The assignment goes to
  \<open>dataframe_list[-1]\<close>: of a pressure series followed by a temperature series, neither
  with a Message column, the first ends without the \<open>grow\<close> attribute and the last one
  carries the diagnostic; both are sampled and the call returns. The cuts are 0.5 and 0.2.
\<close>

theorem resampling_diagnostic_on_last:
  "resampling lib
     [\<lparr>name = Some ''MIG'', comment = Some ''pressure'', grow = None,
        table = Numeric \<lparr>columns = [''MIG''], rows = [(0, [Fin 1]), (1, [Fin 2])]\<rparr>\<rparr>,
      \<lparr>name = Some ''PID'', comment = Some ''temperature'', grow = None,
        table = Numeric \<lparr>columns = [''PID''], rows = [(0, [Fin 10]), (1, [Fin 20])]\<rparr>\<rparr>]
     (Fin (1 / 2)) (b64 (1 / 5)) ''30S'' ''diff''
   = Inr ([\<lparr>name = Some ''MIG'', comment = Some ''pressure'', grow = None,
             table = Numeric \<lparr>columns = [''MIG''], rows = [(0, [Fin 1]), (1, [Fin 2])]\<rparr>\<rparr>,
           \<lparr>name = Some ''PID'', comment = Some ''temperature'',
             grow = Some no_message_error,
             table = Numeric \<lparr>columns = [''PID''], rows = [(0, [Fin 10]), (1, [Fin 20])]\<rparr>\<rparr>],
          [Line no_message_error, Line no_message_error])"
  by (rule two_series)

section \<open>The thresholds resampling passes to the samplers\<close>

lemma threshold_sampling_columns:
  assumes "threshold_sampling f change thr = Inr g"
  shows "length (columns g) = 1"
  using assms by (auto simp: threshold_sampling_def Let_def split: if_splits)

lemma accumulated_sampling_columns:
  assumes "accumulated_sampling g change thr = Inr h" "length (columns g) = 1"
  shows "length (columns h) = 1"
proof (cases "empty g")
  case True
  then show ?thesis using assms by (simp add: accumulated_sampling_def)
next
  case False
  obtain c where "columns g = [c]" using assms(2) by (cases "columns g") auto
  then show ?thesis using assms(1) False
    by (auto simp: accumulated_sampling_def Let_def split: if_splits)
qed

lemma sampled_columns:
  assumes "and_then (numeric df) (\<lambda>f.
               and_then (threshold_sampling f change thr) (\<lambda>g.
               and_then (accumulated_sampling g change cutoff) (\<lambda>h.
               Inr (fresh (Numeric h))))) = Inr d"
  shows "length (columns_of (table d)) = 1"
proof -
  from assms obtain f g h where "threshold_sampling f change thr = Inr g"
    "accumulated_sampling g change cutoff = Inr h" "d = fresh (Numeric h)"
    by (auto simp: and_then_def split: sum.splits)
  then show ?thesis
    using threshold_sampling_columns accumulated_sampling_columns
    by (auto simp: fresh_def columns_of_def)
qed

lemma diff_stage_columns:
  assumes "diff_stage percent_cut value_cut df = Inr d" "length (columns_of (table df)) < 3"
  shows "length (columns_of (table d)) < 3"
proof -
  define s1 where "s1 = (if list_ex pressure (columns_of (table df))
          then and_then (numeric df) (\<lambda>f.
               and_then (threshold_sampling f ''relative'' default_threshold) (\<lambda>g.
               and_then (accumulated_sampling g ''relative'' percent_cut) (\<lambda>h.
               Inr (fresh (Numeric h)))))
          else Inr df)"
  from assms obtain d1 where d1: "s1 = Inr d1"
    and d: "(if list_ex temperature (columns_of (table d1))
              then and_then (numeric d1) (\<lambda>f.
                   and_then (threshold_sampling f ''absolute'' default_threshold) (\<lambda>g.
                   and_then (accumulated_sampling g ''absolute'' value_cut) (\<lambda>h.
                   Inr (fresh (Numeric h)))))
              else Inr d1) = Inr d"
    by (auto simp: diff_stage_def s1_def[symmetric] and_then_def split: sum.splits)
  have "length (columns_of (table d1)) < 3"
  proof (cases "list_ex pressure (columns_of (table df))")
    case True
    then show ?thesis using d1 sampled_columns[of df "''relative''" default_threshold percent_cut d1]
      by (simp add: s1_def)
  next
    case False
    then show ?thesis using d1 assms(2) by (simp add: s1_def)
  qed
  then show ?thesis
  proof (cases "list_ex temperature (columns_of (table d1))")
    case True
    then show ?thesis using d sampled_columns[of d1 "''absolute''" default_threshold value_cut d]
      by simp
  next
    case False
    then show ?thesis using d \<open>length (columns_of (table d1)) < 3\<close> by simp
  qed
qed

lemma growth_time_narrow:
  "length (columns_of (table d)) < 3 \<Longrightarrow> growth_time d = Inl IndexError"
  by (simp add: growth_time_def)

lemma step_diff:
  assumes "step lib percent_cut value_cut period ''diff'' i l out = Inr (l1, out1)"
    and "i < length l"
  shows "length l1 = length l"
    and "j \<noteq> i \<Longrightarrow> table (l1 ! j) = table (l ! j)"
    and "length (columns_of (table (l ! i))) < 3 \<Longrightarrow>
           \<exists>d. diff_stage percent_cut value_cut (l ! i) = Inr d \<and> table (l1 ! i) = table d"
proof -
  from assms(1) obtain c nm d where c: "comment (l ! i) = Some c" and nm: "name (l ! i) = Some nm"
    and d: "diff_stage percent_cut value_cut (l ! i) = Inr d"
    and rest: "and_then
                 (if list_ex (contains ''Message'') (columns_of (table d))
                  then and_then (growth_time d) (\<lambda>(g, ls). Inr (l[i := g], out @ ls))
                  else
                    let l' = l[i := d]; final = length l' - 1
                    in Inr (l'[final := (l' ! final)\<lparr>grow := Some no_message_error\<rparr>],
                            out @ [Line no_message_error]))
                 (\<lambda>(l', out'). Inr (l'[i := (l' ! i)\<lparr>comment := Some c, name := Some nm\<rparr>], out'))
               = Inr (l1, out1)"
    by (auto simp: step_def Let_def and_then_def split: option.splits sum.splits)
  show "length l1 = length l"
    using rest by (auto simp: and_then_def Let_def split: if_splits sum.splits)
  show "table (l1 ! j) = table (l ! j)" if "j \<noteq> i"
    using rest that assms(2)
    by (auto simp: and_then_def Let_def nth_list_update split: if_splits sum.splits)
  show "\<exists>d. diff_stage percent_cut value_cut (l ! i) = Inr d \<and> table (l1 ! i) = table d"
    if "length (columns_of (table (l ! i))) < 3"
  proof -
    have "length (columns_of (table d)) < 3" using d that by (rule diff_stage_columns)
    then have g: "growth_time d = Inl IndexError" by (rule growth_time_narrow)
    have "table (l1 ! i) = table d"
      using rest assms(2) g
      by (auto simp: and_then_def Let_def nth_list_update split: if_splits)
    then show ?thesis using d by blast
  qed
qed

lemma loop_diff:
  assumes "resampling_loop lib percent_cut value_cut period ''diff'' todo i l out = Inr (l', out')"
    and "i + todo \<le> length l"
  shows "length l' = length l
    \<and> (j < i \<or> i + todo \<le> j \<longrightarrow> table (l' ! j) = table (l ! j))
    \<and> (i \<le> j \<and> j < i + todo \<and> length (columns_of (table (l ! j))) < 3 \<longrightarrow>
         (\<exists>e d. table e = table (l ! j) \<and> diff_stage percent_cut value_cut e = Inr d
            \<and> table (l' ! j) = table d))"
  using assms
proof (induction todo arbitrary: i l out)
  case 0
  then show ?case by auto
next
  case (Suc todo)
  from Suc.prems(1) obtain l1 out1 where
    st: "step lib percent_cut value_cut period ''diff'' i l out = Inr (l1, out1)" and
    lp: "resampling_loop lib percent_cut value_cut period ''diff'' todo (Suc i) l1 out1 = Inr (l', out')"
    by (auto split: sum.splits)
  have i: "i < length l" using Suc.prems(2) by simp
  note s = step_diff[OF st i]
  have "Suc i + todo \<le> length l1" using Suc.prems(2) s(1) by simp
  note ih = Suc.IH[OF lp this]
  have len: "length l' = length l" using ih s(1) by simp
  have out: "table (l' ! j) = table (l ! j)" if "j < i \<or> i + Suc todo \<le> j"
  proof -
    have "j \<noteq> i" using that by auto
    then have "table (l1 ! j) = table (l ! j)" by (rule s(2))
    moreover have "table (l' ! j) = table (l1 ! j)" using ih that by auto
    ultimately show ?thesis by simp
  qed
  have inn: "\<exists>e d. table e = table (l ! j) \<and> diff_stage percent_cut value_cut e = Inr d
            \<and> table (l' ! j) = table d"
    if "i \<le> j" "j < i + Suc todo" "length (columns_of (table (l ! j))) < 3"
  proof (cases "j = i")
    case True
    from s(3) that(3) True obtain d where
      d: "diff_stage percent_cut value_cut (l ! i) = Inr d" "table (l1 ! i) = table d" by auto
    have "table (l' ! j) = table (l1 ! j)" using ih True by auto
    then show ?thesis using d True by auto
  next
    case False
    then have eq: "table (l1 ! j) = table (l ! j)" by (rule s(2))
    have "Suc i \<le> j" "j < Suc i + todo" using that False by auto
    moreover have "length (columns_of (table (l1 ! j))) < 3" using that(3) eq by simp
    ultimately show ?thesis using ih eq by auto
  qed
  show ?case using len out inn by blast
qed

lemma table_fresh: "table (fresh tb) = tb"
  by (simp add: fresh_def)

lemma diff_stage_numeric:
  assumes "diff_stage percent_cut value_cut e = Inr d" "table e = Numeric f"
    and "length (columns f) < 3"
  shows "if list_ex pressure (columns f)
     then \<exists>g h. threshold_sampling f ''relative'' (b64 (1 / 100)) = Inr g
            \<and> accumulated_sampling g ''relative'' percent_cut = Inr h
            \<and> (if list_ex temperature (columns h)
               then \<exists>g' h'. threshold_sampling h ''absolute'' (b64 (1 / 100)) = Inr g'
                      \<and> accumulated_sampling g' ''absolute'' value_cut = Inr h'
                      \<and> table d = Numeric h'
               else table d = Numeric h)
     else if list_ex temperature (columns f)
     then \<exists>g h. threshold_sampling f ''absolute'' (b64 (1 / 100)) = Inr g
            \<and> accumulated_sampling g ''absolute'' value_cut = Inr h
            \<and> table d = Numeric h
     else table d = Numeric f"
proof (cases "list_ex pressure (columns f)")
  case True
  with assms obtain g h where
    g: "threshold_sampling f ''relative'' default_threshold = Inr g" and
    h: "accumulated_sampling g ''relative'' percent_cut = Inr h" and
    r: "(if list_ex temperature (columns h)
              then and_then (numeric (fresh (Numeric h))) (\<lambda>f.
                   and_then (threshold_sampling f ''absolute'' default_threshold) (\<lambda>g.
                   and_then (accumulated_sampling g ''absolute'' value_cut) (\<lambda>h.
                   Inr (fresh (Numeric h)))))
              else Inr (fresh (Numeric h))) = Inr d"
    by (auto simp: diff_stage_def columns_of_def numeric_def and_then_def table_fresh
        split: sum.splits)
  show ?thesis
  proof (cases "list_ex temperature (columns h)")
    case t: True
    with r obtain g' h' where
      "threshold_sampling h ''absolute'' default_threshold = Inr g'"
      "accumulated_sampling g' ''absolute'' value_cut = Inr h'" "d = fresh (Numeric h')"
      by (auto simp: numeric_def and_then_def table_fresh split: sum.splits)
    then show ?thesis using True t g h by (auto simp: table_fresh default_threshold_def)
  next
    case f: False
    with r have "d = fresh (Numeric h)" by simp
    then show ?thesis using True f g h by (auto simp: table_fresh default_threshold_def)
  qed
next
  case False
  show ?thesis
  proof (cases "list_ex temperature (columns f)")
    case t: True
    with assms False obtain g h where
      "threshold_sampling f ''absolute'' default_threshold = Inr g"
      "accumulated_sampling g ''absolute'' value_cut = Inr h" "d = fresh (Numeric h)"
      by (auto simp: diff_stage_def columns_of_def numeric_def and_then_def table_fresh
          split: sum.splits)
    then show ?thesis using False t by (auto simp: table_fresh default_threshold_def)
  next
    case f: False
    with assms False have "d = e"
      by (auto simp: diff_stage_def columns_of_def and_then_def)
    then show ?thesis using False f assms(2) by simp
  qed
qed

text \<open>
  Claim C9: in the mode \<open>'diff'\<close> \<open>threshold_sampling\<close> always runs with its default
  threshold 0.01, for pressure-like and for temperature-like series, and \<open>percent_cut\<close> and
  \<open>value_cut\<close> go to \<open>accumulated_sampling\<close> only. For every series of a batch that the
  call has processed without an exception, numeric and of fewer than 3 columns: its table
  in the result is what \<open>accumulated_sampling\<close> with the cut returns on what
  \<open>threshold_sampling\<close> with the binary64 number 0.01 returns, in relative mode for a
  pressure label, then (or only) in absolute mode for a temperature label, and the table
  as it was for neither.
\<close>

theorem resampling_diff_default_threshold:
  assumes "resampling lib dataframe_list percent_cut value_cut period ''diff'' = Inr (out, printed)"
    and "i < length dataframe_list"
    and "table (dataframe_list ! i) = Numeric f"
    and "length (columns f) < 3"
  shows "if list_ex pressure (columns f)
     then \<exists>g h. threshold_sampling f ''relative'' (b64 (1 / 100)) = Inr g
            \<and> accumulated_sampling g ''relative'' percent_cut = Inr h
            \<and> (if list_ex temperature (columns h)
               then \<exists>g' h'. threshold_sampling h ''absolute'' (b64 (1 / 100)) = Inr g'
                      \<and> accumulated_sampling g' ''absolute'' value_cut = Inr h'
                      \<and> table (out ! i) = Numeric h'
               else table (out ! i) = Numeric h)
     else if list_ex temperature (columns f)
     then \<exists>g h. threshold_sampling f ''absolute'' (b64 (1 / 100)) = Inr g
            \<and> accumulated_sampling g ''absolute'' value_cut = Inr h
            \<and> table (out ! i) = Numeric h
     else table (out ! i) = Numeric f"
proof -
  have lp: "resampling_loop lib percent_cut value_cut period ''diff'' (length dataframe_list) 0
      dataframe_list [] = Inr (out, printed)"
    using assms(1) by (simp add: resampling_def)
  have "length (columns_of (table (dataframe_list ! i))) < 3"
    using assms(3,4) by (simp add: columns_of_def)
  with loop_diff[OF lp, of i] assms(2) obtain e d where
    e: "table e = table (dataframe_list ! i)" and
    d: "diff_stage percent_cut value_cut e = Inr d" and
    t: "table (out ! i) = table d"
    by auto
  have "table e = Numeric f" using e assms(3) by simp
  from diff_stage_numeric[OF d this assms(4)] show ?thesis unfolding t .
qed

theorem resampling_diff_default_threshold_witness:
  "resampling (\<lambda>period a tb. Inr tb) [\<lparr>name = Some ''MIG'', comment = Some ''pressure'', grow = None,
        table = Numeric \<lparr>columns = [''MIG''], rows = [(0, [Fin 1]), (1, [Fin 2])]\<rparr>\<rparr>,
      \<lparr>name = Some ''PID'', comment = Some ''temperature'', grow = None,
        table = Numeric \<lparr>columns = [''PID''], rows = [(0, [Fin 10]), (1, [Fin 20])]\<rparr>\<rparr>] (Fin (1 / 2)) (b64 (1 / 5)) ''30S'' ''diff''
     = Inr ([\<lparr>name = Some ''MIG'', comment = Some ''pressure'', grow = None,
             table = Numeric \<lparr>columns = [''MIG''], rows = [(0, [Fin 1]), (1, [Fin 2])]\<rparr>\<rparr>,
           \<lparr>name = Some ''PID'', comment = Some ''temperature'',
             grow = Some no_message_error,
             table = Numeric \<lparr>columns = [''PID''], rows = [(0, [Fin 10]), (1, [Fin 20])]\<rparr>\<rparr>],
          [Line no_message_error, Line no_message_error])
   \<and> (1 :: nat) < length [\<lparr>name = Some ''MIG'', comment = Some ''pressure'', grow = None,
        table = Numeric \<lparr>columns = [''MIG''], rows = [(0, [Fin 1]), (1, [Fin 2])]\<rparr>\<rparr>,
      \<lparr>name = Some ''PID'', comment = Some ''temperature'', grow = None,
        table = Numeric \<lparr>columns = [''PID''], rows = [(0, [Fin 10]), (1, [Fin 20])]\<rparr>\<rparr>]
   \<and> table ([\<lparr>name = Some ''MIG'', comment = Some ''pressure'', grow = None,
        table = Numeric \<lparr>columns = [''MIG''], rows = [(0, [Fin 1]), (1, [Fin 2])]\<rparr>\<rparr>,
      \<lparr>name = Some ''PID'', comment = Some ''temperature'', grow = None,
        table = Numeric \<lparr>columns = [''PID''], rows = [(0, [Fin 10]), (1, [Fin 20])]\<rparr>\<rparr>] ! 1) = Numeric \<lparr>columns = [''PID''], rows = [(0, [Fin 10]), (1, [Fin 20])]\<rparr>
   \<and> length (columns \<lparr>columns = [''PID''], rows = [(0, [Fin 10]), (1, [Fin 20 :: fval])]\<rparr>) < 3
   \<and> (\<exists>g h. threshold_sampling \<lparr>columns = [''PID''], rows = [(0, [Fin 10]), (1, [Fin 20])]\<rparr>
                ''absolute'' (b64 (1 / 100)) = Inr g
          \<and> accumulated_sampling g ''absolute'' (b64 (1 / 5)) = Inr h
          \<and> Numeric \<lparr>columns = [''PID''], rows = [(0, [Fin 10]), (1, [Fin 20])]\<rparr> = Numeric h)"
proof -
  have r: "resampling (\<lambda>period a tb. Inr tb) [\<lparr>name = Some ''MIG'', comment = Some ''pressure'', grow = None,
        table = Numeric \<lparr>columns = [''MIG''], rows = [(0, [Fin 1]), (1, [Fin 2])]\<rparr>\<rparr>,
      \<lparr>name = Some ''PID'', comment = Some ''temperature'', grow = None,
        table = Numeric \<lparr>columns = [''PID''], rows = [(0, [Fin 10]), (1, [Fin 20])]\<rparr>\<rparr>] (Fin (1 / 2)) (b64 (1 / 5)) ''30S'' ''diff''
     = Inr ([\<lparr>name = Some ''MIG'', comment = Some ''pressure'', grow = None,
             table = Numeric \<lparr>columns = [''MIG''], rows = [(0, [Fin 1]), (1, [Fin 2])]\<rparr>\<rparr>,
           \<lparr>name = Some ''PID'', comment = Some ''temperature'',
             grow = Some no_message_error,
             table = Numeric \<lparr>columns = [''PID''], rows = [(0, [Fin 10]), (1, [Fin 20])]\<rparr>\<rparr>],
          [Line no_message_error, Line no_message_error])"
    by (rule two_series)
  have i: "(1 :: nat) < length [\<lparr>name = Some ''MIG'', comment = Some ''pressure'', grow = None,
        table = Numeric \<lparr>columns = [''MIG''], rows = [(0, [Fin 1]), (1, [Fin 2])]\<rparr>\<rparr>,
      \<lparr>name = Some ''PID'', comment = Some ''temperature'', grow = None,
        table = Numeric \<lparr>columns = [''PID''], rows = [(0, [Fin 10]), (1, [Fin 20])]\<rparr>\<rparr>]" by simp
  have t: "table ([\<lparr>name = Some ''MIG'', comment = Some ''pressure'', grow = None,
        table = Numeric \<lparr>columns = [''MIG''], rows = [(0, [Fin 1]), (1, [Fin 2])]\<rparr>\<rparr>,
      \<lparr>name = Some ''PID'', comment = Some ''temperature'', grow = None,
        table = Numeric \<lparr>columns = [''PID''], rows = [(0, [Fin 10]), (1, [Fin 20])]\<rparr>\<rparr>] ! 1) = Numeric \<lparr>columns = [''PID''], rows = [(0, [Fin 10]), (1, [Fin 20])]\<rparr>"
    by simp
  have c: "length (columns \<lparr>columns = [''PID''], rows = [(0, [Fin 10]), (1, [Fin 20 :: fval])]\<rparr>) < 3"
    by simp
  from resampling_diff_default_threshold[OF r i t c] r i t c
  show ?thesis by (simp add: pressure_def temperature_def)
qed

end
